theory Spec2Isabelle
  imports Main
begin

section \<open>The storage model behind \<open>mysql_clients.py\<close>\<close>

text \<open>
  The methods of \<open>MySQLDBClientMixin\<close> talk to a MySQL database through a cursor.
  The tables are modelled as lists of rows, a statement as a function on the tables,
  an exception as the left summand of a result. Timestamps are microseconds since the
  epoch (\<open>RDFDatetime\<close>), so \<open>RDFDatetimeToTimestamp\<close>, \<open>FROM_UNIXTIME\<close> and
  \<open>UNIX_TIMESTAMP\<close> are the identity on them.
\<close>

subsection \<open>Values, rows and tables\<close>

text \<open>
  Modelled from the spec: the identifier codec of \<open>db_utils\<close> (\<open>ClientIDToInt\<close>,
  \<open>IntToClientID\<close>), which is not part of this file; the spec takes it as total and
  injective.
\<close>

datatype client_id = ClientId nat

fun ClientIDToInt :: "client_id \<Rightarrow> nat" where
  "ClientIDToInt (ClientId n) = n"

definition IntToClientID :: "nat \<Rightarrow> client_id" where
  "IntToClientID n = ClientId n"

text \<open>The columns of the \<open>clients\<close> table that the queries of the file name.\<close>

datatype column =
    col_client_id
  | col_certificate
  | col_first_seen
  | col_last_ping
  | col_last_clock
  | col_last_ip
  | col_last_foreman
  | col_last_fleetspeak_validation_info
  | col_last_snapshot_timestamp
  | col_last_startup_timestamp
  | col_last_crash_timestamp
  | col_last_version_string
  | col_last_platform
  | col_last_platform_release

datatype sql_value = NULL | INTEGER nat | TIMESTAMP int | BLOB string | TEXT string

type_synonym client_row = "column \<Rightarrow> sql_value"

datatype mysql_errno = NO_REFERENCED_ROW_2 | DUP_ENTRY

datatype error =
    UnknownClientError client_id
  | AtLeastOneUnknownClientError "client_id list"
  | IntegrityError mysql_errno
  | ProgrammingError
  | IndexError
  | TypeError
  | AttributeError

text \<open>
  The payload objects. Serialisation (\<open>SerializeToBytes\<close>, \<open>FromSerializedBytes\<close>) is
  an opaque codec outside this file; a stored payload is the object itself.
  \<open>GetGRRVersionString()\<close>, \<open>knowledge_base.os\<close> and \<open>Uname()\<close> of a snapshot are
  kept as three fields.
\<close>

record StartupInfo =
  startup_payload :: string
  startup_timestamp :: "int option"

record ClientSnapshot =
  snapshot_client_id :: client_id
  snapshot_timestamp :: "int option"
  startup_info :: "StartupInfo option"
  grr_version_string :: string
  knowledge_base_os :: string
  uname_string :: string
  snapshot_payload :: string

record ClientCrash =
  crash_payload :: string
  crash_timestamp :: "int option"

record ClientStats =
  stats_payload :: string
  stats_timestamp :: "int option"

record db =
  clients :: "client_row list"
  client_snapshot_history :: "(nat \<times> int \<times> ClientSnapshot) list"
  client_startup_history :: "(nat \<times> int \<times> StartupInfo) list"
  client_crash_history :: "(nat \<times> int \<times> ClientCrash) list"
  client_rrg_startup_history :: "(nat \<times> int \<times> string) list"
  client_stats :: "(nat \<times> int \<times> ClientStats) list"
  client_keywords :: "(nat \<times> string \<times> string \<times> int) list"
  client_labels :: "(nat \<times> string \<times> string \<times> string) list"

text \<open>
  Modelled from the spec: the decorator \<open>mysql_utils.WithTransaction\<close>, which is not
  part of this file. The body runs on the tables and returns its result with the tables
  as it left them; when the body raised, the transaction is rolled back and the tables
  are the ones before the call ("either all writes commit or none do").
\<close>

definition WithTransaction :: "(db \<Rightarrow> (error + 'a) \<times> db) \<Rightarrow> db \<Rightarrow> (error + 'a) \<times> db" where
  "WithTransaction body d =
     (case body d of
        (Inl e, _) \<Rightarrow> (Inl e, d)
      | (Inr v, d') \<Rightarrow> (Inr v, d'))"

subsection \<open>Deleting old client stats in batches\<close>

text \<open>
  \<open>DELETE FROM t WHERE p LIMIT n\<close>: at most \<open>n\<close> rows satisfying \<open>p\<close> are removed
  (the first ones in table order here; MySQL leaves the choice open), and the number of
  removed rows is the cursor's \<open>rowcount\<close>.
\<close>

fun delete_limit :: "('r \<Rightarrow> bool) \<Rightarrow> nat \<Rightarrow> 'r list \<Rightarrow> nat \<times> 'r list" where
  "delete_limit p n [] = (0, [])"
| "delete_limit p n (r # rs) =
     (if n = 0 then (0, r # rs)
      else if p r then (Suc (fst (delete_limit p (n - 1) rs)), snd (delete_limit p (n - 1) rs))
      else (fst (delete_limit p n rs), r # snd (delete_limit p n rs)))"

text \<open>\<open>_DeleteClientStatsBatch\<close> (an Isabelle name cannot start with an underscore).\<close>

definition DeleteClientStatsBatch_body :: "int \<Rightarrow> nat \<Rightarrow> db \<Rightarrow> (error + nat) \<times> db" where
  "DeleteClientStatsBatch_body cutoff_time batch_size d =
     (let res = delete_limit (\<lambda>(cid, ts, payload). ts < cutoff_time) batch_size (client_stats d)
      in (Inr (fst res), d\<lparr>client_stats := snd res\<rparr>))"

definition DeleteClientStatsBatch :: "int \<Rightarrow> nat \<Rightarrow> db \<Rightarrow> (error + nat) \<times> db" where
  "DeleteClientStatsBatch cutoff_time batch_size =
     WithTransaction (DeleteClientStatsBatch_body cutoff_time batch_size)"

definition old_stats :: "int \<Rightarrow> db \<Rightarrow> (nat \<times> int \<times> ClientStats) list" where
  "old_stats cutoff_time d = filter (\<lambda>(cid, ts, payload). ts < cutoff_time) (client_stats d)"

lemma fst_delete_limit: "fst (delete_limit p n rs) = min n (length (filter p rs))"
  by (induction rs arbitrary: n) auto

lemma filter_snd_delete_limit: "filter p (snd (delete_limit p n rs)) = drop n (filter p rs)"
proof (induction rs arbitrary: n)
  case Nil
  show ?case by simp
next
  case (Cons r rs)
  show ?case
  proof (cases n)
    case 0
    then show ?thesis by simp
  next
    case (Suc m)
    then show ?thesis using Cons.IH by simp
  qed
qed

lemma filter_other_delete_limit:
  "filter (\<lambda>r. \<not> p r) (snd (delete_limit p n rs)) = filter (\<lambda>r. \<not> p r) rs"
  by (induction rs arbitrary: n) auto

lemma DeleteClientStatsBatch_count:
  "fst (DeleteClientStatsBatch c b d) = Inr (min b (length (old_stats c d)))"
  by (simp add: DeleteClientStatsBatch_def DeleteClientStatsBatch_body_def WithTransaction_def
      Let_def fst_delete_limit old_stats_def)

lemma DeleteClientStatsBatch_old:
  "old_stats c (snd (DeleteClientStatsBatch c b d)) = drop b (old_stats c d)"
  by (simp add: DeleteClientStatsBatch_def DeleteClientStatsBatch_body_def WithTransaction_def
      Let_def filter_snd_delete_limit old_stats_def)

lemma DeleteClientStatsBatch_decreases:
  assumes "(x, d') = DeleteClientStatsBatch c b d" and "x = Inr n" and "0 < n"
  shows "length (old_stats c d') < length (old_stats c d)"
proof -
  have f: "fst (DeleteClientStatsBatch c b d) = Inr n"
    using assms(1,2) by (metis fst_conv)
  have s: "d' = snd (DeleteClientStatsBatch c b d)"
    using assms(1) by (metis snd_conv)
  have "n = min b (length (old_stats c d))"
    using f by (simp add: DeleteClientStatsBatch_count)
  with assms(3) have "0 < b" "0 < length (old_stats c d)" by auto
  then show ?thesis
    by (simp add: s DeleteClientStatsBatch_old)
qed

text \<open>
  The generator \<open>DeleteOldClientStats\<close>, run to its end: the list of the values it
  yields and the tables after its last batch. The constant \<open>db.CLIENT_IDS_BATCH_SIZE\<close>
  is not part of this file and is a parameter.
\<close>

function DeleteOldClientStats_loop :: "int \<Rightarrow> nat \<Rightarrow> db \<Rightarrow> nat list \<times> db" where
  "DeleteOldClientStats_loop cutoff_time batch_size d =
     (case DeleteClientStatsBatch cutoff_time batch_size d of
        (Inr deleted_count, d') \<Rightarrow>
          if deleted_count > 0
          then (deleted_count # fst (DeleteOldClientStats_loop cutoff_time batch_size d'),
                snd (DeleteOldClientStats_loop cutoff_time batch_size d'))
          else ([], d')
      | (Inl e, d') \<Rightarrow> ([], d'))"
  by pat_completeness auto
termination
  by (relation "measure (\<lambda>(c, b, d). length (old_stats c d))")
    (simp_all add: DeleteClientStatsBatch_decreases)

definition DeleteOldClientStats :: "nat \<Rightarrow> int \<Rightarrow> nat option \<Rightarrow> db \<Rightarrow> nat list \<times> db" where
  "DeleteOldClientStats CLIENT_IDS_BATCH_SIZE cutoff_time batch_size d =
     DeleteOldClientStats_loop cutoff_time
       (case batch_size of None \<Rightarrow> CLIENT_IDS_BATCH_SIZE | Some b \<Rightarrow> b) d"

declare DeleteOldClientStats_loop.simps [simp del]

text \<open>The counts the spec announces for \<open>n\<close> rows older than the cutoff and batch size \<open>b\<close>.\<close>

definition batch_counts :: "nat \<Rightarrow> nat \<Rightarrow> nat list" where
  "batch_counts b n = replicate (n div b) b @ (if n mod b = 0 then [] else [n mod b])"

lemma batch_counts_step:
  assumes "0 < b" and "0 < n"
  shows "batch_counts b n = min b n # batch_counts b (n - b)"
proof (cases "b \<le> n")
  case True
  then have "n div b = Suc ((n - b) div b)" and "n mod b = (n - b) mod b"
    using assms(1) by (simp_all add: le_div_geq le_mod_geq)
  then show ?thesis using True by (simp add: batch_counts_def min_def)
next
  case False
  then show ?thesis using assms by (simp add: batch_counts_def min_def)
qed

lemma DeleteOldClientStats_loop_step:
  "DeleteOldClientStats_loop c b d =
     (if 0 < min b (length (old_stats c d))
      then (min b (length (old_stats c d))
              # fst (DeleteOldClientStats_loop c b (snd (DeleteClientStatsBatch c b d))),
            snd (DeleteOldClientStats_loop c b (snd (DeleteClientStatsBatch c b d))))
      else ([], snd (DeleteClientStatsBatch c b d)))"
proof -
  obtain x d' where e: "DeleteClientStatsBatch c b d = (x, d')"
    by (cases "DeleteClientStatsBatch c b d")
  have "x = Inr (min b (length (old_stats c d)))"
    using DeleteClientStatsBatch_count [of c b d] e by simp
  then show ?thesis
    by (subst DeleteOldClientStats_loop.simps) (simp add: e)
qed

lemma DeleteOldClientStats_loop_counts:
  "0 < b \<Longrightarrow> fst (DeleteOldClientStats_loop c b d) = batch_counts b (length (old_stats c d))"
proof (induction "length (old_stats c d)" arbitrary: d rule: less_induct)
  case less
  let ?n = "length (old_stats c d)"
  let ?d' = "snd (DeleteClientStatsBatch c b d)"
  show ?case
  proof (cases "0 < ?n")
    case True
    have len: "length (old_stats c ?d') = ?n - b"
      by (simp add: DeleteClientStatsBatch_old)
    then have "length (old_stats c ?d') < ?n"
      using True less.prems by simp
    then have "fst (DeleteOldClientStats_loop c b ?d') = batch_counts b (?n - b)"
      using less.hyps [of ?d'] less.prems len by simp
    moreover have "fst (DeleteOldClientStats_loop c b d)
        = min b ?n # fst (DeleteOldClientStats_loop c b ?d')"
      using True less.prems by (subst DeleteOldClientStats_loop_step) simp
    ultimately show ?thesis
      using batch_counts_step [OF less.prems True] by simp
  next
    case False
    then have "fst (DeleteOldClientStats_loop c b d) = []"
      by (subst DeleteOldClientStats_loop_step) simp
    then show ?thesis using False by (simp add: batch_counts_def)
  qed
qed

lemma DeleteOldClientStats_loop_purges:
  "0 < b \<Longrightarrow> old_stats c (snd (DeleteOldClientStats_loop c b d)) = []"
proof (induction "length (old_stats c d)" arbitrary: d rule: less_induct)
  case less
  let ?n = "length (old_stats c d)"
  let ?d' = "snd (DeleteClientStatsBatch c b d)"
  show ?case
  proof (cases "0 < ?n")
    case True
    have "length (old_stats c ?d') = ?n - b"
      by (simp add: DeleteClientStatsBatch_old)
    then have "length (old_stats c ?d') < ?n"
      using True less.prems by simp
    then have "old_stats c (snd (DeleteOldClientStats_loop c b ?d')) = []"
      using less.hyps [of ?d'] less.prems by simp
    moreover have "snd (DeleteOldClientStats_loop c b d) = snd (DeleteOldClientStats_loop c b ?d')"
      using True less.prems by (subst DeleteOldClientStats_loop_step) simp
    ultimately show ?thesis by simp
  next
    case False
    then have "snd (DeleteOldClientStats_loop c b d) = ?d'"
      by (subst DeleteOldClientStats_loop_step) simp
    then show ?thesis using False by (simp add: DeleteClientStatsBatch_old)
  qed
qed

lemma batch_counts_positive: "0 < b \<Longrightarrow> 0 \<notin> set (batch_counts b n)"
  by (auto simp: batch_counts_def)

lemma batch_counts_sum: "sum_list (batch_counts b n) = n"
proof -
  have "n div b * b + n mod b = n" by simp
  then show ?thesis by (auto simp: batch_counts_def sum_list_replicate)
qed

text \<open>
  Claim C8. With a positive batch size \<open>b\<close> and \<open>n\<close> rows older than the cutoff,
  \<open>DeleteOldClientStats\<close> yields \<open>n div b\<close> times the count \<open>b\<close> and then \<open>n mod b\<close>
  when that is not zero; no yielded count is zero, the counts add up to \<open>n\<close>, and no row
  older than the cutoff is left when the generator is exhausted.
\<close>

theorem DeleteOldClientStats_batches:
  assumes "0 < b"
  shows "fst (DeleteOldClientStats B c (Some b) d)
           = replicate (length (old_stats c d) div b) b
             @ (if length (old_stats c d) mod b = 0 then [] else [length (old_stats c d) mod b])
       \<and> 0 \<notin> set (fst (DeleteOldClientStats B c (Some b) d))
       \<and> sum_list (fst (DeleteOldClientStats B c (Some b) d)) = length (old_stats c d)
       \<and> old_stats c (snd (DeleteOldClientStats B c (Some b) d)) = []"
proof -
  have "fst (DeleteOldClientStats B c (Some b) d) = batch_counts b (length (old_stats c d))"
    using assms by (simp add: DeleteOldClientStats_def DeleteOldClientStats_loop_counts)
  moreover have "old_stats c (snd (DeleteOldClientStats B c (Some b) d)) = []"
    using assms by (simp add: DeleteOldClientStats_def DeleteOldClientStats_loop_purges)
  ultimately show ?thesis
    using batch_counts_positive [OF assms] batch_counts_sum [of b]
    by (simp add: batch_counts_def)
qed

definition stats_row :: "nat \<Rightarrow> int \<Rightarrow> nat \<times> int \<times> ClientStats" where
  "stats_row cid ts = (cid, ts, \<lparr>stats_payload = [], stats_timestamp = Some ts\<rparr>)"

definition db_empty :: db where
  "db_empty = \<lparr>clients = [], client_snapshot_history = [], client_startup_history = [],
     client_crash_history = [], client_rrg_startup_history = [], client_stats = [],
     client_keywords = [], client_labels = []\<rparr>"

definition db_five_old_stats :: db where
  "db_five_old_stats = db_empty\<lparr>client_stats :=
     [stats_row 1 10, stats_row 1 20, stats_row 2 150, stats_row 1 30, stats_row 2 40,
      stats_row 2 50]\<rparr>"

theorem DeleteOldClientStats_batches_witness:
  "fst (DeleteOldClientStats 10000 100 (Some 2) db_five_old_stats) = [2, 2, 1]
   \<and> client_stats (snd (DeleteOldClientStats 10000 100 (Some 2) db_five_old_stats))
       = [stats_row 2 150]"
proof -
  have n: "length (old_stats 100 db_five_old_stats) = 5"
    by (simp add: old_stats_def db_five_old_stats_def db_empty_def stats_row_def)
  have r: "replicate 2 (2::nat) = [2, 2]"
    by (simp add: numeral_2_eq_2)
  have "fst (DeleteOldClientStats 10000 100 (Some 2) db_five_old_stats) = [2, 2, 1]"
    using DeleteOldClientStats_batches [of 2 10000 100 db_five_old_stats] n r
    by simp
  moreover have "client_stats (snd (DeleteOldClientStats 10000 100 (Some 2) db_five_old_stats))
       = [stats_row 2 150]"
    by (simp add: DeleteOldClientStats_def DeleteOldClientStats_loop.simps
        DeleteClientStatsBatch_def DeleteClientStatsBatch_body_def WithTransaction_def
        db_five_old_stats_def db_empty_def stats_row_def Let_def)
  ultimately show ?thesis by simp
qed

subsection \<open>Statements on the \<open>clients\<close> table and on the history tables\<close>

definition client_known :: "client_row list \<Rightarrow> nat \<Rightarrow> bool" where
  "client_known cs cid = (INTEGER cid \<in> set (map (\<lambda>r. r col_client_id) cs))"

text \<open>\<open>UPDATE clients SET assignments WHERE w\<close>.\<close>

fun assign :: "(column \<times> sql_value) list \<Rightarrow> client_row \<Rightarrow> client_row" where
  "assign [] r = r"
| "assign ((c, v) # as) r = assign as (r(c := v))"

definition update_clients ::
  "(client_row \<Rightarrow> bool) \<Rightarrow> (column \<times> sql_value) list \<Rightarrow> client_row list \<Rightarrow> client_row list" where
  "update_clients w as cs = map (\<lambda>r. if w r then assign as r else r) cs"

definition has_client_id :: "nat \<Rightarrow> client_row \<Rightarrow> bool" where
  "has_client_id cid r = (r col_client_id = INTEGER cid)"

text \<open>
  Modelled from the spec: the constraints of the schema, which is not part of this file.
  Each history table is keyed by (client, timestamp), and a row needs its client in the
  \<open>clients\<close> table ("referential integrity is enforced at the storage layer"). The
  statement \<open>INSERT INTO history (client_id, timestamp, payload) VALUES (...)\<close> raises
  \<open>MySQLdb.IntegrityError\<close> with the code of the violated constraint; the foreign key is
  looked at first.
\<close>

definition insert_history ::
  "client_row list \<Rightarrow> nat \<Rightarrow> int \<Rightarrow> 'p \<Rightarrow> (nat \<times> int \<times> 'p) list \<Rightarrow> error + (nat \<times> int \<times> 'p) list" where
  "insert_history cs cid ts payload t =
     (if \<not> client_known cs cid then Inl (IntegrityError NO_REFERENCED_ROW_2)
      else if (cid, ts) \<in> set (map (\<lambda>(c, t, p). (c, t)) t) then Inl (IntegrityError DUP_ENTRY)
      else Inr (t @ [(cid, ts, payload)]))"

text \<open>\<open>INSERT ... ON DUPLICATE KEY UPDATE payload = VALUES(payload)\<close>.\<close>

definition upsert_history ::
  "client_row list \<Rightarrow> nat \<Rightarrow> int \<Rightarrow> 'p \<Rightarrow> (nat \<times> int \<times> 'p) list \<Rightarrow> error + (nat \<times> int \<times> 'p) list" where
  "upsert_history cs cid ts payload t =
     (if \<not> client_known cs cid then Inl (IntegrityError NO_REFERENCED_ROW_2)
      else if (cid, ts) \<in> set (map (\<lambda>(c, t, p). (c, t)) t)
      then Inr (map (\<lambda>(c, t, p). if c = cid \<and> t = ts then (c, t, payload) else (c, t, p)) t)
      else Inr (t @ [(cid, ts, payload)]))"

subsection \<open>The writers of the history streams\<close>

text \<open>
  \<open>WriteClientSnapshot\<close>. The parameter \<open>now\<close> is the value of \<open>NOW(6)\<close>. The function
  \<open>WriteClientSnapshot_try\<close> is the \<open>try\<close> block with its \<open>except\<close> clause: three
  statements, the second of which serialises the detached startup info first (an
  \<open>AttributeError\<close> when there is none). An \<open>IntegrityError\<close> with the code
  \<open>NO_REFERENCED_ROW_2\<close> becomes \<open>UnknownClientError\<close>, any other exception is raised
  again. The tables are returned as the failing statement left them.
\<close>

definition WriteClientSnapshot_except :: "client_id \<Rightarrow> error \<Rightarrow> error" where
  "WriteClientSnapshot_except cid e =
     (if e = IntegrityError NO_REFERENCED_ROW_2 then UnknownClientError cid else e)"

definition WriteClientSnapshot_try ::
  "int \<Rightarrow> ClientSnapshot \<Rightarrow> StartupInfo option \<Rightarrow> (column \<times> sql_value) list \<Rightarrow> db
     \<Rightarrow> (error + unit) \<times> db" where
  "WriteClientSnapshot_try now snapshot startup update_clauses d =
     (let int_client_id = ClientIDToInt (snapshot_client_id snapshot) in
      case insert_history (clients d) int_client_id now snapshot (client_snapshot_history d) of
        Inl e \<Rightarrow> (Inl (WriteClientSnapshot_except (snapshot_client_id snapshot) e), d)
      | Inr h \<Rightarrow>
         (let d1 = d\<lparr>client_snapshot_history := h\<rparr> in
          case startup of
            None \<Rightarrow> (Inl AttributeError, d1)
          | Some si \<Rightarrow>
             (case insert_history (clients d1) int_client_id now si (client_startup_history d1) of
                Inl e \<Rightarrow> (Inl (WriteClientSnapshot_except (snapshot_client_id snapshot) e), d1)
              | Inr s \<Rightarrow>
                 (Inr (), d1\<lparr>client_startup_history := s,
                     clients := update_clients (has_client_id int_client_id) update_clauses
                                  (clients d1)\<rparr>))))"

text \<open>
  The method itself: the startup info is read and detached before the \<open>try\<close> block, the
  \<open>finally\<close> clause puts it back on every way out of the block. The result is the
  outcome of the transaction and the caller's snapshot object after the call.
\<close>

definition WriteClientSnapshot ::
  "int \<Rightarrow> ClientSnapshot \<Rightarrow> db \<Rightarrow> ((error + unit) \<times> db) \<times> ClientSnapshot" where
  "WriteClientSnapshot now snapshot d =
     (let update_clauses =
            [(col_last_snapshot_timestamp, TIMESTAMP now),
             (col_last_startup_timestamp, TIMESTAMP now),
             (col_last_version_string, TEXT (grr_version_string snapshot)),
             (col_last_platform, TEXT (knowledge_base_os snapshot)),
             (col_last_platform_release, TEXT (uname_string snapshot))];
          startup = startup_info snapshot;
          detached = snapshot\<lparr>startup_info := None\<rparr>;
          outcome = WithTransaction (WriteClientSnapshot_try now detached startup update_clauses) d
      in (outcome, detached\<lparr>startup_info := startup\<rparr>))"

text \<open>
  \<open>WriteClientStartupInfo\<close> and \<open>WriteClientCrashInfo\<close>: one row into the stream, then
  the pointer; every \<open>IntegrityError\<close> becomes \<open>UnknownClientError\<close>.
\<close>

definition WriteClientStartupInfo_body ::
  "int \<Rightarrow> client_id \<Rightarrow> StartupInfo \<Rightarrow> db \<Rightarrow> (error + unit) \<times> db" where
  "WriteClientStartupInfo_body now cid si d =
     (case insert_history (clients d) (ClientIDToInt cid) now si (client_startup_history d) of
        Inl (IntegrityError code) \<Rightarrow> (Inl (UnknownClientError cid), d)
      | Inl e \<Rightarrow> (Inl e, d)
      | Inr s \<Rightarrow>
         (Inr (), d\<lparr>client_startup_history := s,
             clients := update_clients (has_client_id (ClientIDToInt cid))
                          [(col_last_startup_timestamp, TIMESTAMP now)] (clients d)\<rparr>))"

definition WriteClientStartupInfo ::
  "int \<Rightarrow> client_id \<Rightarrow> StartupInfo \<Rightarrow> db \<Rightarrow> (error + unit) \<times> db" where
  "WriteClientStartupInfo now cid si = WithTransaction (WriteClientStartupInfo_body now cid si)"

definition WriteClientCrashInfo_body ::
  "int \<Rightarrow> client_id \<Rightarrow> ClientCrash \<Rightarrow> db \<Rightarrow> (error + unit) \<times> db" where
  "WriteClientCrashInfo_body now cid ci d =
     (case insert_history (clients d) (ClientIDToInt cid) now ci (client_crash_history d) of
        Inl (IntegrityError code) \<Rightarrow> (Inl (UnknownClientError cid), d)
      | Inl e \<Rightarrow> (Inl e, d)
      | Inr h \<Rightarrow>
         (Inr (), d\<lparr>client_crash_history := h,
             clients := update_clients (has_client_id (ClientIDToInt cid))
                          [(col_last_crash_timestamp, TIMESTAMP now)] (clients d)\<rparr>))"

definition WriteClientCrashInfo ::
  "int \<Rightarrow> client_id \<Rightarrow> ClientCrash \<Rightarrow> db \<Rightarrow> (error + unit) \<times> db" where
  "WriteClientCrashInfo now cid ci = WithTransaction (WriteClientCrashInfo_body now cid ci)"

text \<open>
  \<open>WriteClientStats\<close>: a sample without a timestamp gets \<open>RDFDatetime.Now()\<close>; the row
  is written with \<open>ON DUPLICATE KEY UPDATE\<close>; only the code \<open>NO_REFERENCED_ROW_2\<close> is
  translated.
\<close>

definition WriteClientStats_body ::
  "int \<Rightarrow> client_id \<Rightarrow> ClientStats \<Rightarrow> db \<Rightarrow> (error + unit) \<times> db" where
  "WriteClientStats_body now cid stats d =
     (let stats1 = (if stats_timestamp stats = None then stats\<lparr>stats_timestamp := Some now\<rparr>
                    else stats);
          ts = (case stats_timestamp stats1 of Some t \<Rightarrow> t | None \<Rightarrow> now) in
      case upsert_history (clients d) (ClientIDToInt cid) ts stats1 (client_stats d) of
        Inl e \<Rightarrow>
          (Inl (if e = IntegrityError NO_REFERENCED_ROW_2 then UnknownClientError cid else e), d)
      | Inr t \<Rightarrow> (Inr (), d\<lparr>client_stats := t\<rparr>))"

definition WriteClientStats ::
  "int \<Rightarrow> client_id \<Rightarrow> ClientStats \<Rightarrow> db \<Rightarrow> (error + unit) \<times> db" where
  "WriteClientStats now cid stats = WithTransaction (WriteClientStats_body now cid stats)"

lemma insert_history_unknown:
  "\<not> client_known cs cid \<Longrightarrow> insert_history cs cid ts p t = Inl (IntegrityError NO_REFERENCED_ROW_2)"
  by (simp add: insert_history_def)

lemma upsert_history_unknown:
  "\<not> client_known cs cid \<Longrightarrow> upsert_history cs cid ts p t = Inl (IntegrityError NO_REFERENCED_ROW_2)"
  by (simp add: upsert_history_def)

lemma WriteClientSnapshot_unknown:
  assumes "\<not> client_known (clients d) (ClientIDToInt (snapshot_client_id snapshot))"
  shows "fst (WriteClientSnapshot now snapshot d)
           = (Inl (UnknownClientError (snapshot_client_id snapshot)), d)"
  using assms
  by (simp add: WriteClientSnapshot_def WriteClientSnapshot_try_def WithTransaction_def
      WriteClientSnapshot_except_def insert_history_unknown Let_def)

lemma WriteClientStartupInfo_unknown:
  assumes "\<not> client_known (clients d) (ClientIDToInt cid)"
  shows "WriteClientStartupInfo now cid si d = (Inl (UnknownClientError cid), d)"
  using assms
  by (simp add: WriteClientStartupInfo_def WriteClientStartupInfo_body_def WithTransaction_def
      insert_history_unknown)

lemma WriteClientCrashInfo_unknown:
  assumes "\<not> client_known (clients d) (ClientIDToInt cid)"
  shows "WriteClientCrashInfo now cid ci d = (Inl (UnknownClientError cid), d)"
  using assms
  by (simp add: WriteClientCrashInfo_def WriteClientCrashInfo_body_def WithTransaction_def
      insert_history_unknown)

lemma WriteClientStats_unknown:
  assumes "\<not> client_known (clients d) (ClientIDToInt cid)"
  shows "WriteClientStats now cid stats d = (Inl (UnknownClientError cid), d)"
  using assms
  by (simp add: WriteClientStats_def WriteClientStats_body_def WithTransaction_def
      upsert_history_unknown Let_def)

text \<open>
  Claim C7. For a client id without a row in \<open>clients\<close>, each of \<open>WriteClientSnapshot\<close>,
  \<open>WriteClientStartupInfo\<close>, \<open>WriteClientCrashInfo\<close> and \<open>WriteClientStats\<close> raises
  \<open>UnknownClientError\<close> for that id, which stands for the foreign-key violation
  \<open>NO_REFERENCED_ROW_2\<close> of the first insert, and all tables are as before the call; the
  bodies of the three single-stream writers have not changed a table when they raise.
\<close>

theorem history_writers_unknown_client:
  assumes "\<not> client_known (clients d) (ClientIDToInt cid)"
    and "snapshot_client_id snapshot = cid"
  shows "fst (WriteClientSnapshot now snapshot d) = (Inl (UnknownClientError cid), d)
       \<and> WriteClientStartupInfo now cid si d = (Inl (UnknownClientError cid), d)
       \<and> WriteClientCrashInfo now cid ci d = (Inl (UnknownClientError cid), d)
       \<and> WriteClientStats now cid stats d = (Inl (UnknownClientError cid), d)
       \<and> insert_history (clients d) (ClientIDToInt cid) now snapshot (client_snapshot_history d)
           = Inl (IntegrityError NO_REFERENCED_ROW_2)
       \<and> WriteClientStartupInfo_body now cid si d = (Inl (UnknownClientError cid), d)
       \<and> WriteClientCrashInfo_body now cid ci d = (Inl (UnknownClientError cid), d)
       \<and> WriteClientStats_body now cid stats d = (Inl (UnknownClientError cid), d)"
proof -
  have bodies: "WriteClientStartupInfo_body now cid si d = (Inl (UnknownClientError cid), d)"
    "WriteClientCrashInfo_body now cid ci d = (Inl (UnknownClientError cid), d)"
    "WriteClientStats_body now cid stats d = (Inl (UnknownClientError cid), d)"
    using assms(1)
    by (simp_all add: WriteClientStartupInfo_body_def WriteClientCrashInfo_body_def
        WriteClientStats_body_def insert_history_unknown upsert_history_unknown Let_def)
  show ?thesis
    using assms bodies WriteClientSnapshot_unknown [of d snapshot now]
    by (simp add: WriteClientStartupInfo_unknown WriteClientCrashInfo_unknown
        WriteClientStats_unknown insert_history_unknown)
qed

text \<open>Concrete tables and objects for the checks at concrete inputs.\<close>

definition new_client_row :: "nat \<Rightarrow> client_row" where
  "new_client_row cid = (\<lambda>c. NULL)(col_client_id := INTEGER cid)"

definition db_one_client :: db where
  "db_one_client = db_empty\<lparr>clients := [new_client_row 1]\<rparr>"

definition example_startup :: StartupInfo where
  "example_startup = \<lparr>startup_payload = ''boot'', startup_timestamp = None\<rparr>"

definition example_snapshot :: "nat \<Rightarrow> int option \<Rightarrow> ClientSnapshot" where
  "example_snapshot n ts =
     \<lparr>snapshot_client_id = ClientId n, snapshot_timestamp = ts,
      startup_info = Some example_startup, grr_version_string = ''GRR 3'',
      knowledge_base_os = ''Linux'', uname_string = ''Linux-6'', snapshot_payload = ''kb''\<rparr>"

definition example_crash :: ClientCrash where
  "example_crash = \<lparr>crash_payload = ''segv'', crash_timestamp = None\<rparr>"

definition example_stats :: ClientStats where
  "example_stats = \<lparr>stats_payload = ''cpu'', stats_timestamp = None\<rparr>"

theorem history_writers_unknown_client_witness:
  "\<not> client_known (clients db_one_client) (ClientIDToInt (ClientId 7))
   \<and> fst (WriteClientSnapshot 100 (example_snapshot 7 None) db_one_client)
       = (Inl (UnknownClientError (ClientId 7)), db_one_client)
   \<and> WriteClientStartupInfo 100 (ClientId 7) example_startup db_one_client
       = (Inl (UnknownClientError (ClientId 7)), db_one_client)
   \<and> WriteClientCrashInfo 100 (ClientId 7) example_crash db_one_client
       = (Inl (UnknownClientError (ClientId 7)), db_one_client)
   \<and> WriteClientStats 100 (ClientId 7) example_stats db_one_client
       = (Inl (UnknownClientError (ClientId 7)), db_one_client)"
proof -
  have k: "\<not> client_known (clients db_one_client) (ClientIDToInt (ClientId 7))"
    by (simp add: client_known_def db_one_client_def db_empty_def new_client_row_def)
  have i: "snapshot_client_id (example_snapshot 7 None) = ClientId 7"
    by (simp add: example_snapshot_def)
  show ?thesis
    using k history_writers_unknown_client [OF k i, of 100 example_startup example_crash
        example_stats]
    by simp
qed

text \<open>
  Claim C10. Whatever the outcome of \<open>WriteClientSnapshot\<close> (it returns, it raises
  \<open>UnknownClientError\<close>, it raises anything else), the caller's snapshot object is the
  one passed in: the detached \<open>startup_info\<close> is back. When the call returns, the row
  added to the snapshot stream carries the snapshot without its startup info, and the
  startup info is the row added to the startup stream.
\<close>

theorem WriteClientSnapshot_restores_startup_info:
  "snd (WriteClientSnapshot now snapshot d) = snapshot
   \<and> (\<forall>d'. fst (WriteClientSnapshot now snapshot d) = (Inr (), d') \<longrightarrow>
         client_snapshot_history d'
           = client_snapshot_history d
             @ [(ClientIDToInt (snapshot_client_id snapshot), now, snapshot\<lparr>startup_info := None\<rparr>)]
         \<and> (\<exists>si. startup_info snapshot = Some si
              \<and> client_startup_history d'
                  = client_startup_history d
                    @ [(ClientIDToInt (snapshot_client_id snapshot), now, si)]))"
proof -
  have restored: "snd (WriteClientSnapshot now snapshot d) = snapshot"
    by (simp add: WriteClientSnapshot_def Let_def)
  have streams: "client_snapshot_history d'
           = client_snapshot_history d
             @ [(ClientIDToInt (snapshot_client_id snapshot), now, snapshot\<lparr>startup_info := None\<rparr>)]
         \<and> (\<exists>si. startup_info snapshot = Some si
              \<and> client_startup_history d'
                  = client_startup_history d
                    @ [(ClientIDToInt (snapshot_client_id snapshot), now, si)])"
    if ok: "fst (WriteClientSnapshot now snapshot d) = (Inr (), d')" for d'
    using ok
    by (auto simp: WriteClientSnapshot_def WriteClientSnapshot_try_def WithTransaction_def
        insert_history_def Let_def split: if_splits option.splits sum.splits)
  show ?thesis using restored streams by blast
qed

theorem WriteClientSnapshot_restores_startup_info_witness:
  "snd (WriteClientSnapshot 100 (example_snapshot 1 None) db_one_client) = example_snapshot 1 None
   \<and> fst (fst (WriteClientSnapshot 100 (example_snapshot 1 None) db_one_client)) = Inr ()
   \<and> client_snapshot_history (snd (fst (WriteClientSnapshot 100 (example_snapshot 1 None) db_one_client)))
       = [(1, 100, (example_snapshot 1 None)\<lparr>startup_info := None\<rparr>)]
   \<and> client_startup_history (snd (fst (WriteClientSnapshot 100 (example_snapshot 1 None) db_one_client)))
       = [(1, 100, example_startup)]
   \<and> snd (WriteClientSnapshot 100 (example_snapshot 7 None) db_one_client) = example_snapshot 7 None
   \<and> fst (fst (WriteClientSnapshot 100 (example_snapshot 7 None) db_one_client))
       = Inl (UnknownClientError (ClientId 7))"
proof -
  have ok: "fst (fst (WriteClientSnapshot 100 (example_snapshot 1 None) db_one_client)) = Inr ()"
    by (simp add: WriteClientSnapshot_def WriteClientSnapshot_try_def WithTransaction_def
        insert_history_def client_known_def Let_def db_one_client_def db_empty_def
        new_client_row_def example_snapshot_def)
  then have e: "fst (WriteClientSnapshot 100 (example_snapshot 1 None) db_one_client)
      = (Inr (), snd (fst (WriteClientSnapshot 100 (example_snapshot 1 None) db_one_client)))"
    by (metis prod.collapse)
  have bad: "fst (fst (WriteClientSnapshot 100 (example_snapshot 7 None) db_one_client))
       = Inl (UnknownClientError (ClientId 7))"
    by (simp add: WriteClientSnapshot_def WriteClientSnapshot_try_def WithTransaction_def
        insert_history_def client_known_def Let_def db_one_client_def db_empty_def
        new_client_row_def example_snapshot_def WriteClientSnapshot_except_def)
  have h: "client_snapshot_history db_one_client = []" "client_startup_history db_one_client = []"
    by (simp_all add: db_one_client_def db_empty_def)
  have s: "startup_info (example_snapshot 1 None) = Some example_startup"
    "ClientIDToInt (snapshot_client_id (example_snapshot 1 None)) = 1"
    by (simp_all add: example_snapshot_def)
  show ?thesis
    using WriteClientSnapshot_restores_startup_info [of 100 "example_snapshot 1 None" db_one_client]
      WriteClientSnapshot_restores_startup_info [of 100 "example_snapshot 7 None" db_one_client]
      e ok bad h s
    by auto
qed

subsection \<open>The bulk writer of snapshot history\<close>

text \<open>
  \<open>WriteClientSnapshotHistory\<close>. The client id is the one of the first snapshot
  (\<open>IndexError\<close> on an empty list), \<open>latest_timestamp\<close> the maximum of the snapshots'
  timestamps (a snapshot without a timestamp ends in an exception that is not an
  \<open>IntegrityError\<close>; it stands as \<open>TypeError\<close>). The loop writes each snapshot, detached
  from its startup info, and the startup info to their streams; two guarded updates
  follow. Every \<open>IntegrityError\<close> of the \<open>try\<close> block becomes \<open>UnknownClientError\<close>.
\<close>

fun WriteClientSnapshotHistory_rows :: "nat \<Rightarrow> ClientSnapshot list \<Rightarrow> db \<Rightarrow> (error + unit) \<times> db" where
  "WriteClientSnapshotHistory_rows cid [] d = (Inr (), d)"
| "WriteClientSnapshotHistory_rows cid (client # rest) d =
     (case snapshot_timestamp client of
        None \<Rightarrow> (Inl TypeError, d)
      | Some ts \<Rightarrow>
         (case startup_info client of
            None \<Rightarrow> (Inl AttributeError, d)
          | Some si \<Rightarrow>
             (case insert_history (clients d) cid ts (client\<lparr>startup_info := None\<rparr>)
                     (client_snapshot_history d) of
                Inl e \<Rightarrow> (Inl e, d)
              | Inr h \<Rightarrow>
                 (case insert_history (clients d) cid ts si (client_startup_history d) of
                    Inl e \<Rightarrow> (Inl e, d\<lparr>client_snapshot_history := h\<rparr>)
                  | Inr s \<Rightarrow>
                     WriteClientSnapshotHistory_rows cid rest
                       (d\<lparr>client_snapshot_history := h, client_startup_history := s\<rparr>)))))"

fun latest_of :: "int list \<Rightarrow> int" where
  "latest_of [] = 0"
| "latest_of (t # ts) = fold max ts t"

text \<open>
  The comparison \<open>column < FROM_UNIXTIME(x)\<close> of SQL: true only for a timestamp below
  \<open>x\<close> (for \<open>NULL\<close> it is \<open>NULL\<close>, which a \<open>WHERE\<close> clause rejects).
\<close>

fun sql_lt :: "sql_value \<Rightarrow> int \<Rightarrow> bool" where
  "sql_lt (TIMESTAMP t) x = (t < x)"
| "sql_lt v x = False"

definition pointer_guard :: "column \<Rightarrow> nat \<Rightarrow> int \<Rightarrow> client_row \<Rightarrow> bool" where
  "pointer_guard col cid latest r =
     (has_client_id cid r \<and> (r col = NULL \<or> sql_lt (r col) latest))"

definition WriteClientSnapshotHistory_body :: "ClientSnapshot list \<Rightarrow> db \<Rightarrow> (error + unit) \<times> db" where
  "WriteClientSnapshotHistory_body batch d =
     (case batch of
        [] \<Rightarrow> (Inl IndexError, d)
      | first # others \<Rightarrow>
         (case those (map snapshot_timestamp batch) of
            None \<Rightarrow> (Inl TypeError, d)
          | Some timestamps \<Rightarrow>
             (let client_id = snapshot_client_id first;
                  cid = ClientIDToInt client_id;
                  latest_timestamp = latest_of timestamps in
              case WriteClientSnapshotHistory_rows cid batch d of
                (Inl (IntegrityError code), d') \<Rightarrow> (Inl (UnknownClientError client_id), d')
              | (Inl e, d') \<Rightarrow> (Inl e, d')
              | (Inr u, d') \<Rightarrow>
                 (Inr (), d'\<lparr>clients :=
                    update_clients (pointer_guard col_last_startup_timestamp cid latest_timestamp)
                      [(col_last_startup_timestamp, TIMESTAMP latest_timestamp)]
                      (update_clients (pointer_guard col_last_snapshot_timestamp cid latest_timestamp)
                         [(col_last_snapshot_timestamp, TIMESTAMP latest_timestamp)]
                         (clients d'))\<rparr>))))"

definition WriteClientSnapshotHistory :: "ClientSnapshot list \<Rightarrow> db \<Rightarrow> (error + unit) \<times> db" where
  "WriteClientSnapshotHistory batch = WithTransaction (WriteClientSnapshotHistory_body batch)"

text \<open>
  What the claim speaks of: the client a batch is written for, the maximum timestamp of
  the batch, the stored pointer values of a client (one per row of the client; the
  primary key allows one row), the guarded advance, and the order of pointer values
  (\<open>NULL\<close> below every timestamp).
\<close>

definition batch_client :: "ClientSnapshot list \<Rightarrow> nat" where
  "batch_client batch = (case batch of [] \<Rightarrow> 0 | first # others \<Rightarrow> ClientIDToInt (snapshot_client_id first))"

definition batch_latest :: "ClientSnapshot list \<Rightarrow> int" where
  "batch_latest batch = (case those (map snapshot_timestamp batch) of None \<Rightarrow> 0 | Some ts \<Rightarrow> latest_of ts)"

definition pointers :: "column \<Rightarrow> nat \<Rightarrow> db \<Rightarrow> sql_value list" where
  "pointers col cid d = map (\<lambda>r. r col) (filter (has_client_id cid) (clients d))"

definition guarded_advance :: "int \<Rightarrow> sql_value \<Rightarrow> sql_value" where
  "guarded_advance latest v = (if v = NULL \<or> sql_lt v latest then TIMESTAMP latest else v)"

fun pointer_le :: "sql_value \<Rightarrow> sql_value \<Rightarrow> bool" where
  "pointer_le NULL w = True"
| "pointer_le (TIMESTAMP a) (TIMESTAMP b) = (a \<le> b)"
| "pointer_le v w = (v = w)"

lemma latest_of_Max: "latest_of (t # ts) = Max (set (t # ts))"
  using Max.set_eq_fold [of t ts] by simp

lemma WriteClientSnapshotHistory_rows_clients:
  "clients (snd (WriteClientSnapshotHistory_rows cid batch d)) = clients d"
  by (induction batch arbitrary: d) (auto split: option.splits sum.splits)

lemma guarded_update_rows:
  assumes "col' \<noteq> col_client_id"
  shows "map (\<lambda>r. r col) (filter (has_client_id c)
            (update_clients (pointer_guard col' cid latest) [(col', TIMESTAMP latest)] cs))
     = (if col = col' \<and> c = cid
        then map (guarded_advance latest) (map (\<lambda>r. r col) (filter (has_client_id c) cs))
        else map (\<lambda>r. r col) (filter (has_client_id c) cs))"
  using assms
  by (induction cs)
    (auto simp: update_clients_def pointer_guard_def has_client_id_def guarded_advance_def)

lemma guarded_update_pointers:
  assumes "col' \<noteq> col_client_id"
  shows "pointers col c (d\<lparr>clients := update_clients (pointer_guard col' cid latest)
                      [(col', TIMESTAMP latest)] (clients d)\<rparr>)
     = (if col = col' \<and> c = cid
        then map (guarded_advance latest) (pointers col c d)
        else pointers col c d)"
  using guarded_update_rows [OF assms, of col c cid latest "clients d"]
  by (simp add: pointers_def)

lemma WriteClientSnapshotHistory_success:
  assumes "WriteClientSnapshotHistory batch d = (Inr (), d')"
  shows "clients d' =
     update_clients (pointer_guard col_last_startup_timestamp (batch_client batch) (batch_latest batch))
       [(col_last_startup_timestamp, TIMESTAMP (batch_latest batch))]
       (update_clients (pointer_guard col_last_snapshot_timestamp (batch_client batch) (batch_latest batch))
          [(col_last_snapshot_timestamp, TIMESTAMP (batch_latest batch))]
          (clients d))"
proof -
  obtain first others where b: "batch = first # others"
    using assms
    by (cases batch) (auto simp: WriteClientSnapshotHistory_def WriteClientSnapshotHistory_body_def
        WithTransaction_def)
  obtain tss where t: "those (map snapshot_timestamp batch) = Some tss"
    using assms b
    by (cases "those (map snapshot_timestamp batch)")
      (auto simp: WriteClientSnapshotHistory_def WriteClientSnapshotHistory_body_def
        WithTransaction_def)
  obtain r d1 where w: "WriteClientSnapshotHistory_rows (batch_client batch) batch d = (r, d1)"
    by (cases "WriteClientSnapshotHistory_rows (batch_client batch) batch d")
  have c1: "clients d1 = clients d"
    using WriteClientSnapshotHistory_rows_clients [of "batch_client batch" batch d] w by simp
  show ?thesis
    using assms b t w c1
    by (auto simp: WriteClientSnapshotHistory_def WriteClientSnapshotHistory_body_def
        WithTransaction_def batch_client_def batch_latest_def Let_def
        split: sum.splits error.splits)
qed

lemma WriteClientSnapshotHistory_pointers:
  assumes "WriteClientSnapshotHistory batch d = (Inr (), d')"
    and "col = col_last_snapshot_timestamp \<or> col = col_last_startup_timestamp"
  shows "pointers col c d' =
     (if c = batch_client batch then map (guarded_advance (batch_latest batch)) (pointers col c d)
      else pointers col c d)"
proof -
  let ?l = "batch_latest batch" and ?b = "batch_client batch"
  let ?d1 = "d\<lparr>clients := update_clients (pointer_guard col_last_snapshot_timestamp ?b ?l)
          [(col_last_snapshot_timestamp, TIMESTAMP ?l)] (clients d)\<rparr>"
  let ?d2 = "?d1\<lparr>clients := update_clients (pointer_guard col_last_startup_timestamp ?b ?l)
          [(col_last_startup_timestamp, TIMESTAMP ?l)] (clients ?d1)\<rparr>"
  have "clients d' = clients ?d2"
    using WriteClientSnapshotHistory_success [OF assms(1)] by simp
  then have "pointers col c d' = pointers col c ?d2"
    by (simp add: pointers_def)
  also have "\<dots> = (if c = ?b then map (guarded_advance ?l) (pointers col c d) else pointers col c d)"
    using assms(2)
    by (auto simp only: guarded_update_pointers column.distinct not_False_eq_True
        if_True if_False simp_thms)
  finally show ?thesis .
qed

lemma guarded_advance_mono: "pointer_le v (guarded_advance l v)"
  by (cases v) (auto simp: guarded_advance_def)

lemma guarded_advance_twice:
  "guarded_advance b (guarded_advance a v) = guarded_advance (max a b) v"
  by (cases v) (auto simp: guarded_advance_def)

lemma those_map_Some:
  "those (map f xs) = Some ys \<Longrightarrow> map f xs = map Some ys"
  by (induction xs arbitrary: ys) (auto split: option.splits)

lemma pointer_le_refl: "pointer_le v v"
  by (cases v) simp_all

lemma pointers_not_lowered: "list_all2 pointer_le xs (map (guarded_advance l) xs)"
  by (induction xs) (simp_all add: guarded_advance_mono)

lemma pointers_kept: "list_all2 pointer_le xs xs"
  by (induction xs) (simp_all add: pointer_le_refl)

lemma batch_latest_is_maximum:
  assumes "those (map snapshot_timestamp batch) = Some tss" and "batch \<noteq> []"
  shows "Some (batch_latest batch) \<in> snapshot_timestamp ` set batch
       \<and> (\<forall>s \<in> set batch. \<exists>t. snapshot_timestamp s = Some t \<and> t \<le> batch_latest batch)"
proof -
  have m: "map snapshot_timestamp batch = map Some tss"
    using assms(1) by (rule those_map_Some)
  then have "set (map snapshot_timestamp batch) = set (map Some tss)" by simp
  then have img: "snapshot_timestamp ` set batch = Some ` set tss" by simp
  have "length tss = length batch" using m by (metis length_map)
  then have ne: "tss \<noteq> []" using assms(2) by auto
  then obtain t us where c: "tss = t # us" by (cases tss) auto
  have l: "batch_latest batch = Max (set tss)"
    using assms(1) c latest_of_Max [of t us] by (simp add: batch_latest_def)
  have top: "Max (set tss) \<in> set tss" using ne by simp
  have first: "Some (batch_latest batch) \<in> snapshot_timestamp ` set batch"
    unfolding img l using top by blast
  have second: "\<exists>t. snapshot_timestamp s = Some t \<and> t \<le> batch_latest batch"
    if "s \<in> set batch" for s
  proof -
    have "snapshot_timestamp s \<in> Some ` set tss" using that img by blast
    then obtain t where t: "t \<in> set tss" "snapshot_timestamp s = Some t" by blast
    have "t \<le> Max (set tss)" using t(1) by simp
    then show ?thesis using t(2) l by simp
  qed
  show ?thesis using first second by blast
qed

lemma WriteClientSnapshotHistory_timestamps:
  assumes "WriteClientSnapshotHistory batch d = (Inr (), d')"
  shows "batch \<noteq> [] \<and> (\<exists>tss. those (map snapshot_timestamp batch) = Some tss)"
  using assms
  by (cases batch; cases "those (map snapshot_timestamp batch)")
    (auto simp: WriteClientSnapshotHistory_def WriteClientSnapshotHistory_body_def
      WithTransaction_def)

lemma WriteClientSnapshotHistory_rollback:
  "fst (WriteClientSnapshotHistory batch d) = Inl e \<Longrightarrow> snd (WriteClientSnapshotHistory batch d) = d"
  by (auto simp: WriteClientSnapshotHistory_def WithTransaction_def split: prod.splits sum.splits)

text \<open>
  Claim C1. When \<open>WriteClientSnapshotHistory\<close> returns, each of the two pointers of the
  batch's client is the maximum timestamp of the batch if the stored pointer was \<open>NULL\<close>
  or below it, and is the stored pointer otherwise; the pointers of other clients are
  untouched; the maximum is the timestamp of a written snapshot and no written snapshot
  is newer. Hence no pointer goes back, and after two calls for the same client the
  pointer is the stored one advanced to the larger of the two maxima, in whichever order
  the two batches are written (5 for maxima 5 and 3 on a pointer that was \<open>NULL\<close> or at
  most 5).
\<close>

theorem WriteClientSnapshotHistory_monotonic:
  assumes "WriteClientSnapshotHistory batch d = (Inr (), d')"
    and "col = col_last_snapshot_timestamp \<or> col = col_last_startup_timestamp"
  shows "pointers col c d'
           = (if c = batch_client batch
              then map (guarded_advance (batch_latest batch)) (pointers col c d)
              else pointers col c d)
       \<and> Some (batch_latest batch) \<in> snapshot_timestamp ` set batch
       \<and> (\<forall>s \<in> set batch. \<exists>t. snapshot_timestamp s = Some t \<and> t \<le> batch_latest batch)
       \<and> list_all2 pointer_le (pointers col c d) (pointers col c d')
       \<and> (\<forall>batch2 d''.
            WriteClientSnapshotHistory batch2 d' = (Inr (), d'')
              \<and> batch_client batch2 = batch_client batch \<longrightarrow>
            pointers col (batch_client batch) d''
              = map (guarded_advance (max (batch_latest batch) (batch_latest batch2)))
                  (pointers col (batch_client batch) d))"
proof -
  have one: "pointers col c d'
           = (if c = batch_client batch
              then map (guarded_advance (batch_latest batch)) (pointers col c d)
              else pointers col c d)" for c
    using WriteClientSnapshotHistory_pointers [OF assms] .
  have maxi: "Some (batch_latest batch) \<in> snapshot_timestamp ` set batch
       \<and> (\<forall>s \<in> set batch. \<exists>t. snapshot_timestamp s = Some t \<and> t \<le> batch_latest batch)"
    using WriteClientSnapshotHistory_timestamps [OF assms(1)] batch_latest_is_maximum by blast
  have mono: "list_all2 pointer_le (pointers col c d) (pointers col c d')"
  proof (cases "c = batch_client batch")
    case True
    then show ?thesis using pointers_not_lowered [of "pointers col c d"] by (simp add: one)
  next
    case False
    then show ?thesis using pointers_kept [of "pointers col c d"] by (simp add: one)
  qed
  have two: "pointers col (batch_client batch) d''
              = map (guarded_advance (max (batch_latest batch) (batch_latest batch2)))
                  (pointers col (batch_client batch) d)"
    if s: "WriteClientSnapshotHistory batch2 d' = (Inr (), d'')"
      and b: "batch_client batch2 = batch_client batch" for batch2 d''
    using WriteClientSnapshotHistory_pointers [OF s assms(2), of "batch_client batch"] b
    by (simp add: one guarded_advance_twice)
  show ?thesis using one maxi mono two by blast
qed
definition batch_five :: "ClientSnapshot list" where
  "batch_five = [example_snapshot 1 (Some 5), example_snapshot 1 (Some 2)]"

definition batch_three :: "ClientSnapshot list" where
  "batch_three = [example_snapshot 1 (Some 3)]"

lemmas history_eval =
  WriteClientSnapshotHistory_def WriteClientSnapshotHistory_body_def WithTransaction_def
  insert_history_def client_known_def Let_def db_one_client_def db_empty_def new_client_row_def
  example_snapshot_def batch_five_def batch_three_def update_clients_def pointer_guard_def
  has_client_id_def pointers_def

theorem WriteClientSnapshotHistory_monotonic_witness:
  "fst (WriteClientSnapshotHistory batch_five db_one_client) = Inr ()
   \<and> fst (WriteClientSnapshotHistory batch_three db_one_client) = Inr ()
   \<and> pointers col_last_snapshot_timestamp 1 db_one_client = [NULL]
   \<and> pointers col_last_snapshot_timestamp 1
        (snd (WriteClientSnapshotHistory batch_five db_one_client)) = [TIMESTAMP 5]
   \<and> pointers col_last_snapshot_timestamp 1
        (snd (WriteClientSnapshotHistory batch_three
               (snd (WriteClientSnapshotHistory batch_five db_one_client)))) = [TIMESTAMP 5]
   \<and> pointers col_last_snapshot_timestamp 1
        (snd (WriteClientSnapshotHistory batch_five
               (snd (WriteClientSnapshotHistory batch_three db_one_client)))) = [TIMESTAMP 5]"
proof -
  let ?d5 = "snd (WriteClientSnapshotHistory batch_five db_one_client)"
  let ?d3 = "snd (WriteClientSnapshotHistory batch_three db_one_client)"
  let ?d53 = "snd (WriteClientSnapshotHistory batch_three ?d5)"
  let ?d35 = "snd (WriteClientSnapshotHistory batch_five ?d3)"
  have f5: "fst (WriteClientSnapshotHistory batch_five db_one_client) = Inr ()"
    by (simp add: history_eval)
  have f3: "fst (WriteClientSnapshotHistory batch_three db_one_client) = Inr ()"
    by (simp add: history_eval)
  have f53: "fst (WriteClientSnapshotHistory batch_three ?d5) = Inr ()"
    by (simp add: history_eval)
  have f35: "fst (WriteClientSnapshotHistory batch_five ?d3) = Inr ()"
    by (simp add: history_eval)
  have e5: "WriteClientSnapshotHistory batch_five db_one_client = (Inr (), ?d5)"
    using f5 by (metis prod.collapse)
  have e3: "WriteClientSnapshotHistory batch_three db_one_client = (Inr (), ?d3)"
    using f3 by (metis prod.collapse)
  have e53: "WriteClientSnapshotHistory batch_three ?d5 = (Inr (), ?d53)"
    using f53 by (metis prod.collapse)
  have e35: "WriteClientSnapshotHistory batch_five ?d3 = (Inr (), ?d35)"
    using f35 by (metis prod.collapse)
  have p0: "pointers col_last_snapshot_timestamp 1 db_one_client = [NULL]"
    by (simp add: pointers_def db_one_client_def db_empty_def new_client_row_def has_client_id_def)
  have b: "batch_client batch_five = 1" "batch_client batch_three = 1"
    "batch_latest batch_five = 5" "batch_latest batch_three = 3"
    by (simp_all add: batch_client_def batch_latest_def batch_five_def batch_three_def
        example_snapshot_def)
  have c: "col_last_snapshot_timestamp = col_last_snapshot_timestamp
      \<or> col_last_snapshot_timestamp = col_last_startup_timestamp" by simp
  have g: "guarded_advance 5 NULL = TIMESTAMP 5"
    by (simp add: guarded_advance_def)
  note five_first = WriteClientSnapshotHistory_monotonic [OF e5 c, of 1]
  note three_first = WriteClientSnapshotHistory_monotonic [OF e3 c, of 1]
  have "pointers col_last_snapshot_timestamp 1 ?d5 = [TIMESTAMP 5]"
    using five_first b p0 g by simp
  moreover have "pointers col_last_snapshot_timestamp 1 ?d53 = [TIMESTAMP 5]"
    using five_first e53 b p0 g by simp
  moreover have "pointers col_last_snapshot_timestamp 1 ?d35 = [TIMESTAMP 5]"
    using three_first e35 b p0 g by simp
  ultimately show ?thesis using f5 f3 p0 by simp
qed

subsection \<open>Writing client metadata\<close>

text \<open>
  The keyword arguments of \<open>WriteClientMetadata\<close>; \<open>None\<close> is an argument left at its
  default. A certificate and an address are their serialised bytes.
\<close>

record metadata_args =
  arg_certificate :: "string option"
  arg_first_seen :: "int option"
  arg_last_ping :: "int option"
  arg_last_clock :: "int option"
  arg_last_ip :: "string option"
  arg_last_foreman :: "int option"
  arg_fleetspeak_validation_info :: "(string \<times> string) list option"

text \<open>
  Three of the tests are truth tests of RDF objects (\<open>if certificate:\<close>,
  \<open>if last_clock:\<close>, \<open>if last_ip:\<close>, \<open>if last_foreman:\<close>), whose \<open>__bool__\<close> is defined
  outside this file, as is the encoding of the validation info
  (\<open>FleetspeakValidationInfo.FromStringDict\<close>, \<open>SerializeToBytes\<close>); they are parameters.
  A Python mapping is true when it is not empty.
\<close>

record rdf_library =
  certificate_bool :: "string \<Rightarrow> bool"
  datetime_bool :: "int \<Rightarrow> bool"
  address_bool :: "string \<Rightarrow> bool"
  validation_info_bytes :: "(string \<times> string) list \<Rightarrow> string"

text \<open>The dictionary \<open>values\<close>, in the order of its insertions.\<close>

definition WriteClientMetadata_values ::
  "rdf_library \<Rightarrow> client_id \<Rightarrow> metadata_args \<Rightarrow> (column \<times> sql_value) list" where
  "WriteClientMetadata_values lib client_id a =
     [(col_client_id, INTEGER (ClientIDToInt client_id))]
     @ (case arg_certificate a of
          None \<Rightarrow> []
        | Some c \<Rightarrow> if certificate_bool lib c then [(col_certificate, BLOB c)] else [])
     @ (case arg_first_seen a of None \<Rightarrow> [] | Some t \<Rightarrow> [(col_first_seen, TIMESTAMP t)])
     @ (case arg_last_ping a of None \<Rightarrow> [] | Some t \<Rightarrow> [(col_last_ping, TIMESTAMP t)])
     @ (case arg_last_clock a of
          None \<Rightarrow> []
        | Some t \<Rightarrow> if datetime_bool lib t then [(col_last_clock, TIMESTAMP t)] else [])
     @ (case arg_last_ip a of
          None \<Rightarrow> []
        | Some ip \<Rightarrow> if address_bool lib ip then [(col_last_ip, BLOB ip)] else [])
     @ (case arg_last_foreman a of
          None \<Rightarrow> []
        | Some t \<Rightarrow> if datetime_bool lib t then [(col_last_foreman, TIMESTAMP t)] else [])
     @ [(col_last_fleetspeak_validation_info,
         (case arg_fleetspeak_validation_info a of
            None \<Rightarrow> NULL
          | Some m \<Rightarrow> if m \<noteq> [] then BLOB (validation_info_bytes lib m) else NULL))]"

text \<open>
  \<open>INSERT INTO clients (columns) VALUES (...) ON DUPLICATE KEY UPDATE column =
  VALUES(column), ...\<close> for the columns of \<open>values\<close>: the row of the client is
  assigned these columns; without such a row a new one is added, whose other columns
  are \<open>NULL\<close>.
\<close>

definition upsert_client :: "(column \<times> sql_value) list \<Rightarrow> nat \<Rightarrow> client_row list \<Rightarrow> client_row list" where
  "upsert_client vs cid cs =
     (if client_known cs cid then update_clients (has_client_id cid) vs cs
      else cs @ [assign vs (\<lambda>c. NULL)])"

definition WriteClientMetadata_body ::
  "rdf_library \<Rightarrow> client_id \<Rightarrow> metadata_args \<Rightarrow> db \<Rightarrow> (error + unit) \<times> db" where
  "WriteClientMetadata_body lib client_id a d =
     (Inr (), d\<lparr>clients := upsert_client (WriteClientMetadata_values lib client_id a)
                              (ClientIDToInt client_id) (clients d)\<rparr>)"

definition WriteClientMetadata ::
  "rdf_library \<Rightarrow> client_id \<Rightarrow> metadata_args \<Rightarrow> db \<Rightarrow> (error + unit) \<times> db" where
  "WriteClientMetadata lib client_id a = WithTransaction (WriteClientMetadata_body lib client_id a)"

text \<open>The column an optional argument goes to, and whether the argument was supplied.\<close>

fun supplied :: "metadata_args \<Rightarrow> column \<Rightarrow> bool" where
  "supplied a col_certificate = (arg_certificate a \<noteq> None)"
| "supplied a col_first_seen = (arg_first_seen a \<noteq> None)"
| "supplied a col_last_ping = (arg_last_ping a \<noteq> None)"
| "supplied a col_last_clock = (arg_last_clock a \<noteq> None)"
| "supplied a col_last_ip = (arg_last_ip a \<noteq> None)"
| "supplied a col_last_foreman = (arg_last_foreman a \<noteq> None)"
| "supplied a col_last_fleetspeak_validation_info = (arg_fleetspeak_validation_info a \<noteq> None)"
| "supplied a c = False"

lemma assign_other: "c \<notin> set (map fst vs) \<Longrightarrow> assign vs r c = r c"
  by (induction vs arbitrary: r) auto

lemma assign_append: "assign (vs @ ws) r = assign ws (assign vs r)"
  by (induction vs arbitrary: r) auto

lemma WriteClientMetadata_columns:
  "set (map fst (WriteClientMetadata_values lib client_id a))
     \<subseteq> {col_client_id, col_last_fleetspeak_validation_info} \<union> {c. supplied a c}"
proof -
  have "c \<in> {col_client_id, col_last_fleetspeak_validation_info} \<union> {c. supplied a c}"
    if "c \<in> set (map fst (WriteClientMetadata_values lib client_id a))" for c
    using that
    by (cases c)
      (auto simp: WriteClientMetadata_values_def split: option.splits if_splits)
  then show ?thesis by blast
qed

lemma WriteClientMetadata_validation_info:
  "assign (WriteClientMetadata_values lib client_id a) r col_last_fleetspeak_validation_info
     = (case arg_fleetspeak_validation_info a of
          None \<Rightarrow> NULL
        | Some m \<Rightarrow> if m \<noteq> [] then BLOB (validation_info_bytes lib m) else NULL)"
  by (simp add: WriteClientMetadata_values_def assign_append)

lemma WriteClientMetadata_values_head:
  "\<exists>vs. WriteClientMetadata_values lib client_id a
           = (col_client_id, INTEGER (ClientIDToInt client_id)) # vs
        \<and> col_client_id \<notin> set (map fst vs)"
  by (auto simp: WriteClientMetadata_values_def split: option.splits)

lemma WriteClientMetadata_unsupplied:
  assumes "\<not> supplied a c" and "c \<noteq> col_last_fleetspeak_validation_info"
    and "has_client_id (ClientIDToInt client_id) r"
  shows "assign (WriteClientMetadata_values lib client_id a) r c = r c"
proof (cases "c = col_client_id")
  case True
  obtain vs where v: "WriteClientMetadata_values lib client_id a
      = (col_client_id, INTEGER (ClientIDToInt client_id)) # vs"
      and n: "col_client_id \<notin> set (map fst vs)"
    using WriteClientMetadata_values_head by blast
  have "assign vs (r(col_client_id := INTEGER (ClientIDToInt client_id))) col_client_id
      = INTEGER (ClientIDToInt client_id)"
    using assign_other [OF n] by simp
  then show ?thesis
    using True assms(3) by (simp add: v has_client_id_def)
next
  case False
  have "c \<notin> set (map fst (WriteClientMetadata_values lib client_id a))"
    using WriteClientMetadata_columns [of lib client_id a] assms(1,2) False by auto
  then show ?thesis by (rule assign_other)
qed

text \<open>
  Claim C6. \<open>WriteClientMetadata\<close> always returns. The upsert names the client id, the
  validation info and, of the optional columns, only those whose argument was supplied.
  In the row of an existing client every column whose argument was not supplied keeps its
  value (so do the pointers and the other columns no argument goes to); for a client
  without a row, a row is added in which these columns are \<open>NULL\<close>. The one exception
  is \<open>last_fleetspeak_validation_info\<close>: it is written on every call, and is \<open>NULL\<close>
  when the argument is absent or an empty mapping.
\<close>

theorem WriteClientMetadata_sparse_update:
  "fst (WriteClientMetadata lib client_id a d) = Inr ()
   \<and> set (map fst (WriteClientMetadata_values lib client_id a))
        \<subseteq> {col_client_id, col_last_fleetspeak_validation_info} \<union> {c. supplied a c}
   \<and> clients (snd (WriteClientMetadata lib client_id a d))
        = (if client_known (clients d) (ClientIDToInt client_id)
           then map (\<lambda>r. if has_client_id (ClientIDToInt client_id) r
                         then assign (WriteClientMetadata_values lib client_id a) r else r)
                  (clients d)
           else clients d @ [assign (WriteClientMetadata_values lib client_id a) (\<lambda>c. NULL)])
   \<and> (\<forall>r c. has_client_id (ClientIDToInt client_id) r \<and> \<not> supplied a c
              \<and> c \<noteq> col_last_fleetspeak_validation_info \<longrightarrow>
            assign (WriteClientMetadata_values lib client_id a) r c = r c)
   \<and> (\<forall>c. \<not> supplied a c \<and> c \<noteq> col_last_fleetspeak_validation_info \<and> c \<noteq> col_client_id \<longrightarrow>
            assign (WriteClientMetadata_values lib client_id a) (\<lambda>c. NULL) c = NULL)
   \<and> (\<forall>r. arg_fleetspeak_validation_info a = None \<or> arg_fleetspeak_validation_info a = Some [] \<longrightarrow>
            assign (WriteClientMetadata_values lib client_id a) r
              col_last_fleetspeak_validation_info = NULL)"
proof -
  let ?vs = "WriteClientMetadata_values lib client_id a"
  have returns: "fst (WriteClientMetadata lib client_id a d) = Inr ()"
    by (simp add: WriteClientMetadata_def WriteClientMetadata_body_def WithTransaction_def)
  have table: "clients (snd (WriteClientMetadata lib client_id a d))
        = (if client_known (clients d) (ClientIDToInt client_id)
           then map (\<lambda>r. if has_client_id (ClientIDToInt client_id) r then assign ?vs r else r)
                  (clients d)
           else clients d @ [assign ?vs (\<lambda>c. NULL)])"
    by (simp add: WriteClientMetadata_def WriteClientMetadata_body_def WithTransaction_def
        upsert_client_def update_clients_def)
  have kept: "assign ?vs r c = r c"
    if "has_client_id (ClientIDToInt client_id) r" "\<not> supplied a c"
      "c \<noteq> col_last_fleetspeak_validation_info" for r c
    using that WriteClientMetadata_unsupplied by blast
  have fresh: "assign ?vs (\<lambda>c. NULL) c = NULL"
    if "\<not> supplied a c" "c \<noteq> col_last_fleetspeak_validation_info" "c \<noteq> col_client_id" for c
  proof -
    have "c \<notin> set (map fst ?vs)"
      using WriteClientMetadata_columns [of lib client_id a] that by auto
    then show ?thesis by (simp add: assign_other)
  qed
  have cleared: "assign ?vs r col_last_fleetspeak_validation_info = NULL"
    if "arg_fleetspeak_validation_info a = None \<or> arg_fleetspeak_validation_info a = Some []" for r
    using that by (auto simp: WriteClientMetadata_validation_info)
  show ?thesis
    using returns WriteClientMetadata_columns [of lib client_id a] table kept fresh cleared
    by blast
qed

definition example_library :: rdf_library where
  "example_library =
     \<lparr>certificate_bool = (\<lambda>c. c \<noteq> []), datetime_bool = (\<lambda>t. t \<noteq> 0),
      address_bool = (\<lambda>ip. ip \<noteq> []),
      validation_info_bytes = (\<lambda>m. concat (map (\<lambda>(k, v). k @ v) m))\<rparr>"

definition no_args :: metadata_args where
  "no_args = \<lparr>arg_certificate = None, arg_first_seen = None, arg_last_ping = None,
     arg_last_clock = None, arg_last_ip = None, arg_last_foreman = None,
     arg_fleetspeak_validation_info = None\<rparr>"

definition db_known_client :: db where
  "db_known_client = db_empty\<lparr>clients :=
     [(new_client_row 4)
        (col_certificate := BLOB ''cert'', col_last_ping := TIMESTAMP 10,
         col_last_fleetspeak_validation_info := BLOB ''fs'',
         col_last_snapshot_timestamp := TIMESTAMP 7)]\<rparr>"

theorem WriteClientMetadata_sparse_update_witness:
  "fst (WriteClientMetadata example_library (ClientId 4) (no_args\<lparr>arg_last_ping := Some 20\<rparr>)
          db_known_client) = Inr ()
   \<and> map (\<lambda>r. (r col_client_id, r col_certificate, r col_last_ping,
                r col_last_fleetspeak_validation_info, r col_last_snapshot_timestamp))
        (clients (snd (WriteClientMetadata example_library (ClientId 4)
                         (no_args\<lparr>arg_last_ping := Some 20\<rparr>) db_known_client)))
       = [(INTEGER 4, BLOB ''cert'', TIMESTAMP 20, NULL, TIMESTAMP 7)]
   \<and> map (\<lambda>r. (r col_client_id, r col_certificate, r col_last_ping,
                r col_last_fleetspeak_validation_info))
        (clients (snd (WriteClientMetadata example_library (ClientId 5)
                         (no_args\<lparr>arg_fleetspeak_validation_info := Some [(''k'', ''v'')]\<rparr>)
                         db_known_client)))
       = [(INTEGER 4, BLOB ''cert'', TIMESTAMP 10, BLOB ''fs''),
          (INTEGER 5, NULL, NULL, BLOB ''kv'')]"
proof -
  have k: "client_known (clients db_known_client) (ClientIDToInt (ClientId 4))"
    "\<not> client_known (clients db_known_client) (ClientIDToInt (ClientId 5))"
    by (simp_all add: client_known_def db_known_client_def db_empty_def new_client_row_def)
  have v1: "WriteClientMetadata_values example_library (ClientId 4)
        (no_args\<lparr>arg_last_ping := Some 20\<rparr>)
      = [(col_client_id, INTEGER 4), (col_last_ping, TIMESTAMP 20),
         (col_last_fleetspeak_validation_info, NULL)]"
    by (simp add: WriteClientMetadata_values_def no_args_def)
  have v2: "WriteClientMetadata_values example_library (ClientId 5)
        (no_args\<lparr>arg_fleetspeak_validation_info := Some [(''k'', ''v'')]\<rparr>)
      = [(col_client_id, INTEGER 5), (col_last_fleetspeak_validation_info, BLOB ''kv'')]"
    by (simp add: WriteClientMetadata_values_def no_args_def example_library_def)
  show ?thesis
    using WriteClientMetadata_sparse_update [of example_library "ClientId 4"
        "no_args\<lparr>arg_last_ping := Some 20\<rparr>" db_known_client]
      WriteClientMetadata_sparse_update [of example_library "ClientId 5"
        "no_args\<lparr>arg_fleetspeak_validation_info := Some [(''k'', ''v'')]\<rparr>" db_known_client]
      k
    by (simp add: v1 v2 db_known_client_def db_empty_def new_client_row_def has_client_id_def)
qed

subsection \<open>Keywords and labels\<close>

text \<open>
  The rows of one multi-row \<open>INSERT INTO client_keywords ... ON DUPLICATE KEY UPDATE
  timestamp = NOW(6)\<close>: a row whose client is missing violates the foreign key; a row
  whose (client, keyword hash) is there refreshes the timestamp; any other row is added.
  The function \<open>mysql_utils.Hash\<close> is not part of this file and is a parameter.
\<close>

fun insert_keywords ::
  "int \<Rightarrow> client_row list \<Rightarrow> (nat \<times> string \<times> string) list \<Rightarrow> (nat \<times> string \<times> string \<times> int) list
     \<Rightarrow> error + (nat \<times> string \<times> string \<times> int) list" where
  "insert_keywords now cs [] t = Inr t"
| "insert_keywords now cs ((cid, h, kw) # args) t =
     (if \<not> client_known cs cid then Inl (IntegrityError NO_REFERENCED_ROW_2)
      else if (cid, h) \<in> set (map (\<lambda>(c, h', k, ts). (c, h')) t)
      then insert_keywords now cs args
             (map (\<lambda>(c, h', k, ts). if c = cid \<and> h' = h then (c, h', k, now) else (c, h', k, ts)) t)
      else insert_keywords now cs args (t @ [(cid, h, kw, now)]))"

definition MultiAddClientKeywords_body ::
  "(string \<Rightarrow> string) \<Rightarrow> int \<Rightarrow> client_id list \<Rightarrow> string list \<Rightarrow> db \<Rightarrow> (error + unit) \<times> db" where
  "MultiAddClientKeywords_body Hash now client_ids keywords d =
     (if client_ids = [] \<or> keywords = [] then (Inr (), d)
      else
        (let args = concat (map (\<lambda>client_id.
                       map (\<lambda>keyword. (ClientIDToInt client_id, Hash keyword, keyword)) keywords)
                     client_ids) in
         case insert_keywords now (clients d) args (client_keywords d) of
           Inl (IntegrityError code) \<Rightarrow> (Inl (AtLeastOneUnknownClientError client_ids), d)
         | Inl e \<Rightarrow> (Inl e, d)
         | Inr t \<Rightarrow> (Inr (), d\<lparr>client_keywords := t\<rparr>)))"

definition MultiAddClientKeywords ::
  "(string \<Rightarrow> string) \<Rightarrow> int \<Rightarrow> client_id list \<Rightarrow> string list \<Rightarrow> db \<Rightarrow> (error + unit) \<times> db" where
  "MultiAddClientKeywords Hash now client_ids keywords =
     WithTransaction (MultiAddClientKeywords_body Hash now client_ids keywords)"

text \<open>
  The rows of one multi-row \<open>INSERT IGNORE INTO client_labels\<close>: a row that is there
  already is skipped. Modelled from the spec: a row whose client is missing makes the
  statement fail ("also fails atomically on unknown clients").
\<close>

fun insert_labels ::
  "client_row list \<Rightarrow> (nat \<times> string \<times> string \<times> string) list \<Rightarrow> (nat \<times> string \<times> string \<times> string) list
     \<Rightarrow> error + (nat \<times> string \<times> string \<times> string) list" where
  "insert_labels cs [] t = Inr t"
| "insert_labels cs ((cid, h, owner, label) # args) t =
     (if \<not> client_known cs cid then Inl (IntegrityError NO_REFERENCED_ROW_2)
      else if (cid, h, owner, label) \<in> set t then insert_labels cs args t
      else insert_labels cs args (t @ [(cid, h, owner, label)]))"

definition MultiAddClientLabels_body ::
  "(string \<Rightarrow> string) \<Rightarrow> client_id list \<Rightarrow> string \<Rightarrow> string list \<Rightarrow> db \<Rightarrow> (error + unit) \<times> db" where
  "MultiAddClientLabels_body Hash client_ids owner labels d =
     (if client_ids = [] \<or> labels = [] then (Inr (), d)
      else
        (let args = concat (map (\<lambda>client_id.
                       map (\<lambda>label. (ClientIDToInt client_id, Hash owner, owner, label)) labels)
                     client_ids) in
         case insert_labels (clients d) args (client_labels d) of
           Inl (IntegrityError code) \<Rightarrow> (Inl (AtLeastOneUnknownClientError client_ids), d)
         | Inl e \<Rightarrow> (Inl e, d)
         | Inr t \<Rightarrow> (Inr (), d\<lparr>client_labels := t\<rparr>)))"

definition MultiAddClientLabels ::
  "(string \<Rightarrow> string) \<Rightarrow> client_id list \<Rightarrow> string \<Rightarrow> string list \<Rightarrow> db \<Rightarrow> (error + unit) \<times> db" where
  "MultiAddClientLabels Hash client_ids owner labels =
     WithTransaction (MultiAddClientLabels_body Hash client_ids owner labels)"

text \<open>
  Claim C9. With no client ids, or with no keywords (labels), \<open>MultiAddClientKeywords\<close>
  and \<open>MultiAddClientLabels\<close> return without an error and leave every table as it was,
  whether or not the client ids have rows in \<open>clients\<close>.
\<close>

theorem MultiAdd_empty_batch:
  assumes "client_ids = [] \<or> names = []"
  shows "MultiAddClientKeywords Hash now client_ids names d = (Inr (), d)
       \<and> MultiAddClientLabels Hash client_ids owner names d = (Inr (), d)"
  using assms
  by (auto simp: MultiAddClientKeywords_def MultiAddClientKeywords_body_def
      MultiAddClientLabels_def MultiAddClientLabels_body_def WithTransaction_def)

theorem MultiAdd_empty_batch_witness:
  "\<not> client_known (clients db_one_client) (ClientIDToInt (ClientId 9))
   \<and> MultiAddClientKeywords id 100 [ClientId 9] [] db_one_client = (Inr (), db_one_client)
   \<and> MultiAddClientLabels id [ClientId 9] ''GRR'' [] db_one_client = (Inr (), db_one_client)
   \<and> MultiAddClientKeywords id 100 [ClientId 9] [''k''] db_one_client
       = (Inl (AtLeastOneUnknownClientError [ClientId 9]), db_one_client)
   \<and> MultiAddClientLabels id [ClientId 9] ''GRR'' [''l''] db_one_client
       = (Inl (AtLeastOneUnknownClientError [ClientId 9]), db_one_client)"
proof -
  have e: "[ClientId 9] = [] \<or> ([]::string list) = []" by simp
  have k: "\<not> client_known (clients db_one_client) (ClientIDToInt (ClientId 9))"
    by (simp add: client_known_def db_one_client_def db_empty_def new_client_row_def)
  have "MultiAddClientKeywords id 100 [ClientId 9] [''k''] db_one_client
       = (Inl (AtLeastOneUnknownClientError [ClientId 9]), db_one_client)"
    using k by (simp add: MultiAddClientKeywords_def MultiAddClientKeywords_body_def
        WithTransaction_def)
  moreover have "MultiAddClientLabels id [ClientId 9] ''GRR'' [''l''] db_one_client
       = (Inl (AtLeastOneUnknownClientError [ClientId 9]), db_one_client)"
    using k by (simp add: MultiAddClientLabels_def MultiAddClientLabels_body_def
        WithTransaction_def)
  ultimately show ?thesis
    using k MultiAdd_empty_batch [OF e, of id 100 db_one_client "''GRR''"] by simp
qed

subsection \<open>The readers of latest values\<close>

text \<open>
  The conversions of \<open>mysql_utils\<close> for a selected value: \<open>TimestampToRDFDatetime\<close>
  and \<open>StringToRDFProto\<close> give \<open>None\<close> for \<open>NULL\<close>.
\<close>

fun TimestampToRDFDatetime :: "sql_value \<Rightarrow> int option" where
  "TimestampToRDFDatetime (TIMESTAMP t) = Some t"
| "TimestampToRDFDatetime v = None"

fun StringToRDFProto :: "sql_value \<Rightarrow> string option" where
  "StringToRDFProto (BLOB b) = Some b"
| "StringToRDFProto v = None"

definition client_id_of :: "client_row \<Rightarrow> nat" where
  "client_id_of r = (case r col_client_id of INTEGER n \<Rightarrow> n | v \<Rightarrow> 0)"

record ClientMetadata =
  certificate :: "string option"
  first_seen :: "int option"
  ping :: "int option"
  clock :: "int option"
  ip :: "string option"
  last_foreman_time :: "int option"
  startup_info_timestamp :: "int option"
  last_crash_timestamp :: "int option"
  last_fleetspeak_validation_info :: "string option"

text \<open>
  The \<open>ClientMetadata\<close> object built from a row of \<open>clients\<close> (the certificate is
  passed as selected; the validation info is set only when the selected bytes are true,
  that is, not \<open>NULL\<close> and not empty).
\<close>

definition metadata_of_row :: "client_row \<Rightarrow> ClientMetadata" where
  "metadata_of_row r =
     \<lparr>certificate = StringToRDFProto (r col_certificate),
      first_seen = TimestampToRDFDatetime (r col_first_seen),
      ping = TimestampToRDFDatetime (r col_last_ping),
      clock = TimestampToRDFDatetime (r col_last_clock),
      ip = StringToRDFProto (r col_last_ip),
      last_foreman_time = TimestampToRDFDatetime (r col_last_foreman),
      startup_info_timestamp = TimestampToRDFDatetime (r col_last_startup_timestamp),
      last_crash_timestamp = TimestampToRDFDatetime (r col_last_crash_timestamp),
      last_fleetspeak_validation_info =
        (case r col_last_fleetspeak_validation_info of
           BLOB b \<Rightarrow> if b \<noteq> [] then Some b else None
         | v \<Rightarrow> None)\<rparr>"

text \<open>
  \<open>MultiReadClientMetadata\<close>: the rows of \<open>clients\<close> whose id is among the requested
  ones, each stored under its client id in the result. With no client id the query ends
  in \<open>IN ()\<close>, which MySQL rejects. The readers run in read-only transactions; they
  return their result only.
\<close>

definition store_metadata ::
  "client_row \<Rightarrow> (client_id \<rightharpoonup> ClientMetadata) \<Rightarrow> (client_id \<rightharpoonup> ClientMetadata)" where
  "store_metadata row ret = ret(IntToClientID (client_id_of row) \<mapsto> metadata_of_row row)"

definition MultiReadClientMetadata :: "client_id list \<Rightarrow> db \<Rightarrow> error + (client_id \<rightharpoonup> ClientMetadata)" where
  "MultiReadClientMetadata client_ids d =
     (let ids = map ClientIDToInt client_ids in
      if ids = [] then Inl ProgrammingError
      else Inr (fold store_metadata
                  (filter (\<lambda>r. r col_client_id \<in> set (map INTEGER ids)) (clients d))
                  Map.empty))"

text \<open>
  \<open>MultiReadClientSnapshot\<close>: the result starts with \<open>None\<close> under every requested id;
  the join of \<open>clients\<close> with the snapshot row at \<open>last_snapshot_timestamp\<close> and the
  startup row at \<open>last_startup_timestamp\<close> gives the snapshots that replace it.
\<close>

definition latest_snapshot_rows :: "nat list \<Rightarrow> db \<Rightarrow> (nat \<times> ClientSnapshot \<times> int \<times> StartupInfo) list" where
  "latest_snapshot_rows int_ids d =
     [(h_cid, snapshot, h_ts, startup).
        c \<leftarrow> clients d,
        (h_cid, h_ts, snapshot) \<leftarrow> client_snapshot_history d,
        (s_cid, s_ts, startup) \<leftarrow> client_startup_history d,
        INTEGER h_cid = c col_client_id \<and> INTEGER s_cid = c col_client_id
          \<and> TIMESTAMP h_ts = c col_last_snapshot_timestamp
          \<and> TIMESTAMP s_ts = c col_last_startup_timestamp
          \<and> c col_client_id \<in> set (map INTEGER int_ids)]"

definition MultiReadClientSnapshot ::
  "client_id list \<Rightarrow> db \<Rightarrow> error + (client_id \<rightharpoonup> ClientSnapshot option)" where
  "MultiReadClientSnapshot client_ids d =
     (if client_ids = [] then Inr Map.empty
      else Inr (fold (\<lambda>(cid, snapshot, timestamp, startup) ret.
                        ret(IntToClientID cid \<mapsto>
                          Some (snapshot\<lparr>startup_info := Some startup,
                                          snapshot_timestamp := Some timestamp\<rparr>)))
                  (latest_snapshot_rows (map ClientIDToInt client_ids) d)
                  (\<lambda>cid. if cid \<in> set client_ids then Some None else None)))"

text \<open>\<open>ReadClientStartupInfo\<close> and \<open>ReadClientCrashInfo\<close>: the first row of the join, if any.\<close>

definition ReadClientStartupInfo :: "client_id \<Rightarrow> db \<Rightarrow> error + StartupInfo option" where
  "ReadClientStartupInfo client_id d =
     (case [(si, ts).
              c \<leftarrow> clients d,
              (h_cid, ts, si) \<leftarrow> client_startup_history d,
              c col_last_startup_timestamp = TIMESTAMP ts \<and> c col_client_id = INTEGER h_cid
                \<and> c col_client_id = INTEGER (ClientIDToInt client_id)] of
        [] \<Rightarrow> Inr None
      | (si, ts) # rest \<Rightarrow> Inr (Some (si\<lparr>startup_timestamp := Some ts\<rparr>)))"

definition ReadClientCrashInfo :: "client_id \<Rightarrow> db \<Rightarrow> error + ClientCrash option" where
  "ReadClientCrashInfo client_id d =
     (case [(ts, ci).
              c \<leftarrow> clients d,
              (h_cid, ts, ci) \<leftarrow> client_crash_history d,
              c col_client_id = INTEGER h_cid \<and> c col_last_crash_timestamp = TIMESTAMP ts
                \<and> c col_client_id = INTEGER (ClientIDToInt client_id)] of
        [] \<Rightarrow> Inr None
      | (ts, ci) # rest \<Rightarrow> Inr (Some (ci\<lparr>crash_timestamp := Some ts\<rparr>)))"

text \<open>
  \<open>ReadClientRRGStartup\<close>: one result row per row of the client, holding the newest
  RRG startup of the client or \<open>NULL\<close>; no row at all is an unknown client.
\<close>

fun newest :: "(int \<times> 'p) option \<Rightarrow> (nat \<times> int \<times> 'p) list \<Rightarrow> (int \<times> 'p) option" where
  "newest best [] = best"
| "newest None ((cid, ts, p) # rows) = newest (Some (ts, p)) rows"
| "newest (Some (bt, bp)) ((cid, ts, p) # rows) =
     (if bt < ts then newest (Some (ts, p)) rows else newest (Some (bt, bp)) rows)"

definition ReadClientRRGStartup :: "client_id \<Rightarrow> db \<Rightarrow> error + string option" where
  "ReadClientRRGStartup client_id d =
     (let su = newest None (filter (\<lambda>(cid, ts, p). cid = ClientIDToInt client_id)
                              (client_rrg_startup_history d)) in
      case [map_option snd su. c \<leftarrow> clients d, c col_client_id = INTEGER (ClientIDToInt client_id)] of
        [] \<Rightarrow> Inl (UnknownClientError client_id)
      | startup_bytes # rest \<Rightarrow> Inr startup_bytes)"

subsection \<open>Deleting a client\<close>

text \<open>
  Modelled from the spec: what \<open>DELETE FROM clients\<close> does to the rows of the other
  tables that name the client is a matter of the schema, which is not part of this file;
  the spec leaves both ways open (the rows go with the client, or stay behind).
\<close>

datatype on_delete = CASCADE | LEAVE_ORPHANS

definition DeleteClient_assignments :: "(column \<times> sql_value) list" where
  "DeleteClient_assignments =
     [(col_last_crash_timestamp, NULL),
      (col_last_snapshot_timestamp, NULL),
      (col_last_startup_timestamp, NULL)]"

definition DeleteClient_clear_pointers :: "nat \<Rightarrow> db \<Rightarrow> db" where
  "DeleteClient_clear_pointers cid d =
     d\<lparr>clients := update_clients (has_client_id cid) DeleteClient_assignments (clients d)\<rparr>"

definition not_of_client :: "nat \<Rightarrow> (nat \<times> 'r) list \<Rightarrow> (nat \<times> 'r) list" where
  "not_of_client cid t = filter (\<lambda>(c, r). c \<noteq> cid) t"

definition DeleteClient_delete_row :: "on_delete \<Rightarrow> nat \<Rightarrow> db \<Rightarrow> db" where
  "DeleteClient_delete_row policy cid d =
     (let d1 = d\<lparr>clients := filter (\<lambda>r. \<not> has_client_id cid r) (clients d)\<rparr> in
      case policy of
        LEAVE_ORPHANS \<Rightarrow> d1
      | CASCADE \<Rightarrow>
          d1\<lparr>client_snapshot_history := not_of_client cid (client_snapshot_history d1),
             client_startup_history := not_of_client cid (client_startup_history d1),
             client_crash_history := not_of_client cid (client_crash_history d1),
             client_rrg_startup_history := not_of_client cid (client_rrg_startup_history d1),
             client_stats := not_of_client cid (client_stats d1),
             client_keywords := not_of_client cid (client_keywords d1),
             client_labels := not_of_client cid (client_labels d1)\<rparr>)"

definition DeleteClient_body :: "on_delete \<Rightarrow> client_id \<Rightarrow> db \<Rightarrow> (error + unit) \<times> db" where
  "DeleteClient_body policy client_id d =
     (if length (filter (has_client_id (ClientIDToInt client_id)) (clients d)) = 0
      then (Inl (UnknownClientError client_id), d)
      else (Inr (), DeleteClient_delete_row policy (ClientIDToInt client_id)
                      (DeleteClient_clear_pointers (ClientIDToInt client_id) d)))"

definition DeleteClient :: "on_delete \<Rightarrow> client_id \<Rightarrow> db \<Rightarrow> (error + unit) \<times> db" where
  "DeleteClient policy client_id = WithTransaction (DeleteClient_body policy client_id)"

lemma IntToClientID_inverse: "IntToClientID (ClientIDToInt c) = c"
  by (cases c) (simp add: IntToClientID_def)

lemma IntToClientID_eq: "(IntToClientID n = c) = (n = ClientIDToInt c)"
  by (cases c) (simp add: IntToClientID_def)

definition result_at :: "error + ('k \<rightharpoonup> 'v) \<Rightarrow> 'k \<Rightarrow> 'v option" where
  "result_at res k = (case res of Inl e \<Rightarrow> None | Inr ret \<Rightarrow> ret k)"

text \<open>\<open>ClientSnapshot(client_id=...)\<close>: a snapshot with nothing but its client id.\<close>

definition ClientSnapshot_shell :: "client_id \<Rightarrow> ClientSnapshot" where
  "ClientSnapshot_shell cid =
     \<lparr>snapshot_client_id = cid, snapshot_timestamp = None, startup_info = None,
      grr_version_string = [], knowledge_base_os = [], uname_string = [],
      snapshot_payload = []\<rparr>"

lemma snapshot_fold_other:
  "k \<notin> set (map (\<lambda>(cid, snapshot, timestamp, startup). IntToClientID cid) rows) \<Longrightarrow>
   fold (\<lambda>(cid, snapshot, timestamp, startup) ret.
           ret(IntToClientID cid \<mapsto>
             Some (snapshot\<lparr>startup_info := Some startup, snapshot_timestamp := Some timestamp\<rparr>)))
     rows ret k = ret k"
  by (induction rows arbitrary: ret) auto

lemma latest_snapshot_rows_pointer:
  assumes "(h_cid, snapshot, h_ts, startup) \<in> set (latest_snapshot_rows ids d)"
  shows "TIMESTAMP h_ts \<in> set (pointers col_last_snapshot_timestamp h_cid d)"
  using assms
  by (auto simp: latest_snapshot_rows_def pointers_def has_client_id_def image_iff
      split: if_splits)

lemma client_id_of_key:
  "r col_client_id = INTEGER n \<Longrightarrow> IntToClientID (client_id_of r) = IntToClientID n"
  by (simp add: client_id_of_def)

lemma metadata_fold_other:
  "\<forall>r \<in> set rows. IntToClientID (client_id_of r) \<noteq> k \<Longrightarrow>
   fold store_metadata rows ret k = ret k"
  by (induction rows arbitrary: ret) (auto simp: store_metadata_def)

lemma metadata_fold_found:
  "\<exists>r \<in> set rows. IntToClientID (client_id_of r) = k \<Longrightarrow>
   \<exists>r \<in> set rows. IntToClientID (client_id_of r) = k
     \<and> fold store_metadata rows ret k = Some (metadata_of_row r)"
proof (induction rows arbitrary: ret)
  case Nil
  then show ?case by simp
next
  case (Cons r rs)
  show ?case
  proof (cases "\<exists>x \<in> set rs. IntToClientID (client_id_of x) = k")
    case True
    obtain x where "x \<in> set rs" "IntToClientID (client_id_of x) = k"
      "fold store_metadata rs (store_metadata r ret) k = Some (metadata_of_row x)"
      using Cons.IH [OF True, of "store_metadata r ret"] by blast
    then show ?thesis by (intro bexI [of _ x]) simp_all
  next
    case False
    then have here: "IntToClientID (client_id_of r) = k" using Cons.prems by auto
    have "\<forall>x \<in> set rs. IntToClientID (client_id_of x) \<noteq> k" using False by blast
    then have "fold store_metadata rs (store_metadata r ret) k = store_metadata r ret k"
      by (rule metadata_fold_other)
    also have "\<dots> = Some (metadata_of_row r)"
      using here by (simp add: store_metadata_def)
    finally show ?thesis using here by (intro bexI [of _ r]) simp_all
  qed
qed

lemma MultiReadClientSnapshot_no_pointer:
  assumes "client_id \<in> set client_ids"
    and "\<forall>v \<in> set (pointers col_last_snapshot_timestamp (ClientIDToInt client_id) d). v = NULL"
  shows "result_at (MultiReadClientSnapshot client_ids d) client_id = Some None"
proof -
  have ne: "client_ids \<noteq> []" using assms(1) by auto
  have "client_id \<notin> set (map (\<lambda>(cid, snapshot, timestamp, startup). IntToClientID cid)
      (latest_snapshot_rows (map ClientIDToInt client_ids) d))"
  proof
    assume "client_id \<in> set (map (\<lambda>(cid, snapshot, timestamp, startup). IntToClientID cid)
      (latest_snapshot_rows (map ClientIDToInt client_ids) d))"
    then obtain h_cid snapshot h_ts startup
      where row: "(h_cid, snapshot, h_ts, startup)
          \<in> set (latest_snapshot_rows (map ClientIDToInt client_ids) d)"
        and key: "IntToClientID h_cid = client_id"
      by auto
    have "h_cid = ClientIDToInt client_id" using key by (simp add: IntToClientID_eq)
    then have "TIMESTAMP h_ts \<in> set (pointers col_last_snapshot_timestamp (ClientIDToInt client_id) d)"
      using latest_snapshot_rows_pointer [OF row] by simp
    then show False using assms(2) by auto
  qed
  then show ?thesis
    using ne assms(1)
    by (simp add: result_at_def MultiReadClientSnapshot_def snapshot_fold_other)
qed

lemma MultiReadClientSnapshot_unknown:
  assumes "client_id \<in> set client_ids"
    and "\<not> client_known (clients d) (ClientIDToInt client_id)"
  shows "result_at (MultiReadClientSnapshot client_ids d) client_id = Some None"
proof -
  have "pointers col_last_snapshot_timestamp (ClientIDToInt client_id) d = []"
    using assms(2)
    by (auto simp: pointers_def client_known_def has_client_id_def filter_empty_conv image_iff)
  then show ?thesis
    using MultiReadClientSnapshot_no_pointer [OF assms(1)] by simp
qed

lemma MultiReadClientMetadata_known:
  assumes "client_id \<in> set client_ids"
    and "client_known (clients d) (ClientIDToInt client_id)"
  shows "\<exists>r \<in> set (clients d). has_client_id (ClientIDToInt client_id) r
          \<and> result_at (MultiReadClientMetadata client_ids d) client_id = Some (metadata_of_row r)"
proof -
  let ?rows = "filter (\<lambda>r. r col_client_id \<in> set (map INTEGER (map ClientIDToInt client_ids)))
      (clients d)"
  obtain r where r: "r \<in> set (clients d)" "r col_client_id = INTEGER (ClientIDToInt client_id)"
    using assms(2) by (auto simp: client_known_def)
  have "r \<in> set ?rows" using r assms(1) by auto
  moreover have "IntToClientID (client_id_of r) = client_id"
    using r(2) by (simp add: client_id_of_def IntToClientID_inverse)
  ultimately have "\<exists>x \<in> set ?rows. IntToClientID (client_id_of x) = client_id" by blast
  then obtain x where x: "x \<in> set ?rows" "IntToClientID (client_id_of x) = client_id"
    and f: "fold store_metadata ?rows
        Map.empty client_id = Some (metadata_of_row x)"
    using metadata_fold_found [of ?rows client_id Map.empty] by blast
  have "x col_client_id = INTEGER (ClientIDToInt client_id)"
    using x by (auto simp: IntToClientID_eq client_id_of_def)
  then have "has_client_id (ClientIDToInt client_id) x" by (simp add: has_client_id_def)
  moreover have "x \<in> set (clients d)" using x(1) by simp
  moreover have "result_at (MultiReadClientMetadata client_ids d) client_id = Some (metadata_of_row x)"
    using f assms(1) by (auto simp: result_at_def MultiReadClientMetadata_def Let_def)
  ultimately show ?thesis by blast
qed

lemma MultiReadClientMetadata_unknown:
  assumes "\<not> client_known (clients d) (ClientIDToInt client_id)"
  shows "result_at (MultiReadClientMetadata client_ids d) client_id = None"
proof (cases "client_ids = []")
  case True
  then show ?thesis by (simp add: result_at_def MultiReadClientMetadata_def)
next
  case False
  let ?rows = "filter (\<lambda>r. r col_client_id \<in> set (map INTEGER (map ClientIDToInt client_ids)))
      (clients d)"
  have "\<forall>r \<in> set ?rows. IntToClientID (client_id_of r) \<noteq> client_id"
    using assms by (auto simp: client_known_def IntToClientID_eq client_id_of_def image_iff)
  then have "fold store_metadata ?rows
        Map.empty client_id = None"
    using metadata_fold_other [of ?rows client_id Map.empty] by simp
  then show ?thesis using False by (simp add: result_at_def MultiReadClientMetadata_def Let_def)
qed

text \<open>
  Claim C5, as the code has it. A requested client that has a row in \<open>clients\<close> but no
  snapshot pointer is mapped to \<open>None\<close> by \<open>MultiReadClientSnapshot\<close> (not to a snapshot
  holding only the client id), and to the \<open>ClientMetadata\<close> of its row by
  \<open>MultiReadClientMetadata\<close> (not to an absent value). The two readers differ for a
  requested client without a row: the snapshot reader maps it to \<open>None\<close>, the metadata
  reader has no entry for it.
\<close>

theorem MultiRead_client_without_pointer:
  assumes "client_id \<in> set client_ids"
    and "client_known (clients d) (ClientIDToInt client_id)"
    and "\<forall>v \<in> set (pointers col_last_snapshot_timestamp (ClientIDToInt client_id) d). v = NULL"
  shows "result_at (MultiReadClientSnapshot client_ids d) client_id = Some None
       \<and> (\<exists>r \<in> set (clients d). has_client_id (ClientIDToInt client_id) r
            \<and> result_at (MultiReadClientMetadata client_ids d) client_id
                = Some (metadata_of_row r))
       \<and> (\<forall>other \<in> set client_ids. \<not> client_known (clients d) (ClientIDToInt other) \<longrightarrow>
            result_at (MultiReadClientSnapshot client_ids d) other = Some None
            \<and> result_at (MultiReadClientMetadata client_ids d) other = None)"
  using MultiReadClientSnapshot_no_pointer [OF assms(1,3)]
    MultiReadClientMetadata_known [OF assms(1,2)]
    MultiReadClientSnapshot_unknown [of _ client_ids d]
    MultiReadClientMetadata_unknown [of d _ client_ids]
  by blast

lemmas reader_eval =
  result_at_def MultiReadClientSnapshot_def MultiReadClientMetadata_def latest_snapshot_rows_def
  store_metadata_def client_id_of_def IntToClientID_def db_one_client_def db_empty_def
  new_client_row_def Let_def

theorem MultiRead_client_without_pointer_witness:
  "result_at (MultiReadClientSnapshot [ClientId 1, ClientId 9] db_one_client) (ClientId 1) = Some None
   \<and> result_at (MultiReadClientMetadata [ClientId 1, ClientId 9] db_one_client) (ClientId 1)
       = Some (metadata_of_row (new_client_row 1))
   \<and> result_at (MultiReadClientSnapshot [ClientId 1, ClientId 9] db_one_client) (ClientId 9) = Some None
   \<and> result_at (MultiReadClientMetadata [ClientId 1, ClientId 9] db_one_client) (ClientId 9) = None"
proof -
  have m: "ClientId 1 \<in> set [ClientId 1, ClientId 9]" "ClientId 9 \<in> set [ClientId 1, ClientId 9]"
    by simp_all
  have k: "client_known (clients db_one_client) (ClientIDToInt (ClientId 1))"
    "\<not> client_known (clients db_one_client) (ClientIDToInt (ClientId 9))"
    by (simp_all add: client_known_def db_one_client_def db_empty_def new_client_row_def)
  have p: "\<forall>v \<in> set (pointers col_last_snapshot_timestamp (ClientIDToInt (ClientId 1)) db_one_client).
      v = NULL"
    by (simp add: pointers_def db_one_client_def db_empty_def new_client_row_def has_client_id_def)
  have c: "clients db_one_client = [new_client_row 1]"
    by (simp add: db_one_client_def db_empty_def)
  note t = MultiRead_client_without_pointer [OF m(1) k(1) p]
  have "result_at (MultiReadClientMetadata [ClientId 1, ClientId 9] db_one_client) (ClientId 1)
       = Some (metadata_of_row (new_client_row 1))"
    using t c by simp
  moreover have "result_at (MultiReadClientSnapshot [ClientId 1, ClientId 9] db_one_client) (ClientId 9)
        = Some None
      \<and> result_at (MultiReadClientMetadata [ClientId 1, ClientId 9] db_one_client) (ClientId 9) = None"
    using t m(2) k(2) by blast
  ultimately show ?thesis using t by blast
qed

theorem MultiRead_client_without_pointer_counterexample:
  "result_at (MultiReadClientSnapshot [ClientId 1] db_one_client) (ClientId 1) = Some None
   \<and> result_at (MultiReadClientSnapshot [ClientId 1] db_one_client) (ClientId 1)
       \<noteq> Some (Some (ClientSnapshot_shell (ClientId 1)))
   \<and> result_at (MultiReadClientMetadata [ClientId 1] db_one_client) (ClientId 1)
       = Some (metadata_of_row (new_client_row 1))
   \<and> result_at (MultiReadClientMetadata [ClientId 1] db_one_client) (ClientId 1) \<noteq> None"
  by (simp add: reader_eval)

lemma DeleteClient_known:
  assumes "client_known (clients d) (ClientIDToInt client_id)"
  shows "DeleteClient policy client_id d
           = (Inr (), DeleteClient_delete_row policy (ClientIDToInt client_id)
                        (DeleteClient_clear_pointers (ClientIDToInt client_id) d))"
proof -
  have "filter (has_client_id (ClientIDToInt client_id)) (clients d) \<noteq> []"
    using assms by (auto simp: client_known_def has_client_id_def filter_empty_conv)
  then show ?thesis
    by (simp add: DeleteClient_def DeleteClient_body_def WithTransaction_def)
qed

lemma DeleteClient_clear_pointers_null:
  assumes "col \<in> set (map fst DeleteClient_assignments)"
    and "v \<in> set (pointers col cid (DeleteClient_clear_pointers cid d))"
  shows "v = NULL"
  using assms
  by (auto simp: DeleteClient_assignments_def DeleteClient_clear_pointers_def pointers_def
      update_clients_def has_client_id_def split: if_splits)

lemma DeleteClient_delete_row_clients:
  "clients (DeleteClient_delete_row policy cid d) = filter (\<lambda>r. \<not> has_client_id cid r) (clients d)"
  by (cases policy) (simp_all add: DeleteClient_delete_row_def Let_def)

lemma DeleteClient_removes_row:
  "\<not> client_known (clients (DeleteClient_delete_row policy cid d)) cid"
  by (auto simp: DeleteClient_delete_row_clients client_known_def has_client_id_def)

lemma DeleteClient_other_rows:
  "filter (\<lambda>r. \<not> has_client_id cid r)
     (clients (DeleteClient_delete_row policy cid (DeleteClient_clear_pointers cid d)))
   = filter (\<lambda>r. \<not> has_client_id cid r) (clients d)"
proof -
  have "filter (\<lambda>r. \<not> has_client_id cid r) (update_clients (has_client_id cid) as cs)
      = filter (\<lambda>r. \<not> has_client_id cid r) cs" if "col_client_id \<notin> set (map fst as)" for as cs
  proof (induction cs)
    case Nil
    show ?case by (simp add: update_clients_def)
  next
    case (Cons c cs)
    have "assign as c col_client_id = c col_client_id"
      using that by (rule assign_other)
    then show ?case using Cons by (simp add: update_clients_def has_client_id_def)
  qed
  then show ?thesis
    by (simp add: DeleteClient_delete_row_clients DeleteClient_clear_pointers_def
        DeleteClient_assignments_def)
qed

lemma ReadClientStartupInfo_unknown:
  assumes "\<not> client_known (clients d) (ClientIDToInt client_id)"
  shows "ReadClientStartupInfo client_id d = Inr None"
proof -
  have "set [(si, ts).
              c \<leftarrow> clients d,
              (h_cid, ts, si) \<leftarrow> client_startup_history d,
              c col_last_startup_timestamp = TIMESTAMP ts \<and> c col_client_id = INTEGER h_cid
                \<and> c col_client_id = INTEGER (ClientIDToInt client_id)] = {}"
    using assms by (auto simp: client_known_def image_iff)
  then show ?thesis
    unfolding ReadClientStartupInfo_def by (simp only: set_empty list.case)
qed

lemma ReadClientCrashInfo_unknown:
  assumes "\<not> client_known (clients d) (ClientIDToInt client_id)"
  shows "ReadClientCrashInfo client_id d = Inr None"
proof -
  have "set [(ts, ci).
              c \<leftarrow> clients d,
              (h_cid, ts, ci) \<leftarrow> client_crash_history d,
              c col_client_id = INTEGER h_cid \<and> c col_last_crash_timestamp = TIMESTAMP ts
                \<and> c col_client_id = INTEGER (ClientIDToInt client_id)] = {}"
    using assms by (auto simp: client_known_def image_iff)
  then show ?thesis
    unfolding ReadClientCrashInfo_def by (simp only: set_empty list.case)
qed

lemma concat_guard_empty:
  "\<forall>c \<in> set cs. \<not> P c \<Longrightarrow> concat (map (\<lambda>c. if P c then [f c] else []) cs) = []"
  by (induction cs) auto

lemma ReadClientRRGStartup_unknown:
  assumes "\<not> client_known (clients d) (ClientIDToInt client_id)"
  shows "ReadClientRRGStartup client_id d = Inl (UnknownClientError client_id)"
proof -
  have n: "\<forall>c \<in> set (clients d). \<not> c col_client_id = INTEGER (ClientIDToInt client_id)"
    using assms by (auto simp: client_known_def image_iff)
  show ?thesis
    unfolding ReadClientRRGStartup_def Let_def
    by (simp add: concat_guard_empty [OF n])
qed

text \<open>
  Claim C4, as the code has it. For a client with a row, \<open>DeleteClient\<close> returns; its
  \<open>UPDATE\<close> sets the three pointer columns \<open>last_crash_timestamp\<close>,
  \<open>last_snapshot_timestamp\<close> and \<open>last_startup_timestamp\<close> of the client to \<open>NULL\<close>
  (there is no fourth pointer column), and its \<open>DELETE\<close> then removes the row. After
  that the latest-value readers of the snapshot, startup and crash streams return
  \<open>None\<close>, whether or not the history rows went with the client;
  \<open>ReadClientRRGStartup\<close> raises \<open>UnknownClientError\<close>.
\<close>

theorem DeleteClient_clears_and_removes:
  assumes "client_known (clients d) (ClientIDToInt client_id)"
  shows "fst (DeleteClient policy client_id d) = Inr ()
       \<and> snd (DeleteClient policy client_id d)
           = DeleteClient_delete_row policy (ClientIDToInt client_id)
               (DeleteClient_clear_pointers (ClientIDToInt client_id) d)
       \<and> map fst DeleteClient_assignments
           = [col_last_crash_timestamp, col_last_snapshot_timestamp, col_last_startup_timestamp]
       \<and> (\<forall>col \<in> set (map fst DeleteClient_assignments).
            \<forall>v \<in> set (pointers col (ClientIDToInt client_id)
                         (DeleteClient_clear_pointers (ClientIDToInt client_id) d)). v = NULL)
       \<and> \<not> client_known (clients (snd (DeleteClient policy client_id d))) (ClientIDToInt client_id)
       \<and> result_at (MultiReadClientSnapshot [client_id] (snd (DeleteClient policy client_id d)))
           client_id = Some None
       \<and> ReadClientStartupInfo client_id (snd (DeleteClient policy client_id d)) = Inr None
       \<and> ReadClientCrashInfo client_id (snd (DeleteClient policy client_id d)) = Inr None
       \<and> ReadClientRRGStartup client_id (snd (DeleteClient policy client_id d))
           = Inl (UnknownClientError client_id)"
proof -
  let ?d' = "snd (DeleteClient policy client_id d)"
  have run: "DeleteClient policy client_id d
      = (Inr (), DeleteClient_delete_row policy (ClientIDToInt client_id)
                   (DeleteClient_clear_pointers (ClientIDToInt client_id) d))"
    using assms by (rule DeleteClient_known)
  have gone: "\<not> client_known (clients ?d') (ClientIDToInt client_id)"
    by (simp add: run DeleteClient_removes_row)
  have cols: "map fst DeleteClient_assignments
           = [col_last_crash_timestamp, col_last_snapshot_timestamp, col_last_startup_timestamp]"
    by (simp add: DeleteClient_assignments_def)
  have cleared: "\<forall>col \<in> set (map fst DeleteClient_assignments).
            \<forall>v \<in> set (pointers col (ClientIDToInt client_id)
                         (DeleteClient_clear_pointers (ClientIDToInt client_id) d)). v = NULL"
    using DeleteClient_clear_pointers_null by blast
  have snap: "result_at (MultiReadClientSnapshot [client_id] ?d') client_id = Some None"
    using MultiReadClientSnapshot_unknown [of client_id "[client_id]" ?d'] gone by simp
  show ?thesis
    using run gone cols cleared snap ReadClientStartupInfo_unknown [OF gone]
      ReadClientCrashInfo_unknown [OF gone] ReadClientRRGStartup_unknown [OF gone]
    by simp
qed

definition db_with_history :: db where
  "db_with_history = db_empty
     \<lparr>clients :=
        [(new_client_row 3)
           (col_last_snapshot_timestamp := TIMESTAMP 100,
            col_last_startup_timestamp := TIMESTAMP 100,
            col_last_crash_timestamp := TIMESTAMP 50)],
      client_snapshot_history := [(3, 100, (example_snapshot 3 None)\<lparr>startup_info := None\<rparr>)],
      client_startup_history := [(3, 100, example_startup)],
      client_crash_history := [(3, 50, example_crash)],
      client_rrg_startup_history := [(3, 60, ''rrg'')]\<rparr>"

lemmas delete_eval =
  DeleteClient_def DeleteClient_body_def WithTransaction_def DeleteClient_delete_row_def
  DeleteClient_clear_pointers_def DeleteClient_assignments_def update_clients_def
  has_client_id_def not_of_client_def db_with_history_def db_empty_def new_client_row_def
  ReadClientStartupInfo_def ReadClientCrashInfo_def ReadClientRRGStartup_def
  MultiReadClientSnapshot_def latest_snapshot_rows_def result_at_def IntToClientID_def Let_def

theorem DeleteClient_clears_and_removes_witness:
  "client_known (clients db_with_history) (ClientIDToInt (ClientId 3))
   \<and> ReadClientStartupInfo (ClientId 3) db_with_history
       = Inr (Some (example_startup\<lparr>startup_timestamp := Some 100\<rparr>))
   \<and> ReadClientCrashInfo (ClientId 3) db_with_history
       = Inr (Some (example_crash\<lparr>crash_timestamp := Some 50\<rparr>))
   \<and> fst (DeleteClient LEAVE_ORPHANS (ClientId 3) db_with_history) = Inr ()
   \<and> client_startup_history (snd (DeleteClient LEAVE_ORPHANS (ClientId 3) db_with_history))
       = [(3, 100, example_startup)]
   \<and> result_at (MultiReadClientSnapshot [ClientId 3]
                  (snd (DeleteClient LEAVE_ORPHANS (ClientId 3) db_with_history))) (ClientId 3)
       = Some None
   \<and> ReadClientStartupInfo (ClientId 3) (snd (DeleteClient LEAVE_ORPHANS (ClientId 3) db_with_history))
       = Inr None
   \<and> ReadClientCrashInfo (ClientId 3) (snd (DeleteClient LEAVE_ORPHANS (ClientId 3) db_with_history))
       = Inr None"
proof -
  have k: "client_known (clients db_with_history) (ClientIDToInt (ClientId 3))"
    by (simp add: client_known_def db_with_history_def db_empty_def new_client_row_def)
  have before: "ReadClientStartupInfo (ClientId 3) db_with_history
       = Inr (Some (example_startup\<lparr>startup_timestamp := Some 100\<rparr>))"
    "ReadClientCrashInfo (ClientId 3) db_with_history
       = Inr (Some (example_crash\<lparr>crash_timestamp := Some 50\<rparr>))"
    by (simp_all add: delete_eval)
  have kept: "client_startup_history (snd (DeleteClient LEAVE_ORPHANS (ClientId 3) db_with_history))
       = [(3, 100, example_startup)]"
    by (simp add: delete_eval)
  show ?thesis
    using k before kept DeleteClient_clears_and_removes [OF k, of LEAVE_ORPHANS]
    by blast
qed

theorem DeleteClient_four_pointers_counterexample:
  "map fst DeleteClient_assignments
     = [col_last_crash_timestamp, col_last_snapshot_timestamp, col_last_startup_timestamp]
   \<and> length DeleteClient_assignments \<noteq> 4
   \<and> ReadClientRRGStartup (ClientId 3) db_with_history = Inr (Some ''rrg'')
   \<and> fst (DeleteClient CASCADE (ClientId 3) db_with_history) = Inr ()
   \<and> ReadClientRRGStartup (ClientId 3) (snd (DeleteClient CASCADE (ClientId 3) db_with_history))
       = Inl (UnknownClientError (ClientId 3))
   \<and> ReadClientRRGStartup (ClientId 3) (snd (DeleteClient LEAVE_ORPHANS (ClientId 3) db_with_history))
       = Inl (UnknownClientError (ClientId 3))"
  by (simp add: delete_eval)

subsection \<open>The full-info reader\<close>

text \<open>A row of the response of \<open>MultiReadClientFullInfo\<close>'s query, in the order of its columns.\<close>

record full_info_row =
  row_cid :: nat
  row_crt :: sql_value
  row_ip :: sql_value
  row_ping :: sql_value
  row_clk :: sql_value
  row_foreman :: sql_value
  row_first :: sql_value
  row_last_client_ts :: sql_value
  row_last_crash_ts :: sql_value
  row_last_startup_ts :: sql_value
  row_client_obj :: "ClientSnapshot option"
  row_client_startup_obj :: "StartupInfo option"
  row_last_startup_obj :: "StartupInfo option"
  row_last_rrg_startup_obj :: "string option"
  row_label_owner :: "string option"
  row_label_name :: "string option"

record ClientLabel =
  label_name :: string
  label_owner :: string

record ClientFullInfo =
  metadata :: ClientMetadata
  labels :: "ClientLabel list"
  last_snapshot :: ClientSnapshot
  last_startup_info :: "StartupInfo option"
  last_rrg_startup :: "string option"

text \<open>The truth value of a selected string: \<open>None\<close> and the empty string are false.\<close>

fun py_bool :: "string option \<Rightarrow> bool" where
  "py_bool None = False"
| "py_bool (Some s) = (s \<noteq> [])"

text \<open>
  The body of \<open>if cid != prev_cid:\<close> after the \<open>yield\<close>: the record for a new client,
  with no labels yet. \<open>FromSerializedBytes\<close> takes bytes; for a row that has a snapshot
  but \<open>NULL\<close> in place of the startup info stored with it, it raises (\<open>TypeError\<close>).
\<close>

definition new_full_info :: "full_info_row \<Rightarrow> error + ClientFullInfo" where
  "new_full_info row =
     (let md = \<lparr>certificate = StringToRDFProto (row_crt row),
                first_seen = TimestampToRDFDatetime (row_first row),
                ping = TimestampToRDFDatetime (row_ping row),
                clock = TimestampToRDFDatetime (row_clk row),
                ip = StringToRDFProto (row_ip row),
                last_foreman_time = TimestampToRDFDatetime (row_foreman row),
                startup_info_timestamp = TimestampToRDFDatetime (row_last_startup_ts row),
                last_crash_timestamp = TimestampToRDFDatetime (row_last_crash_ts row),
                last_fleetspeak_validation_info = None\<rparr>;
          startup = (case row_last_startup_obj row of
                       None \<Rightarrow> None
                     | Some si \<Rightarrow>
                         Some (si\<lparr>startup_timestamp :=
                                    TimestampToRDFDatetime (row_last_startup_ts row)\<rparr>))
      in case row_client_obj row of
           None \<Rightarrow>
             Inr \<lparr>metadata = md, labels = [],
                  last_snapshot = ClientSnapshot_shell (IntToClientID (row_cid row)),
                  last_startup_info = startup,
                  last_rrg_startup = row_last_rrg_startup_obj row\<rparr>
         | Some snapshot \<Rightarrow>
             (case row_client_startup_obj row of
                None \<Rightarrow> Inl TypeError
              | Some si \<Rightarrow>
                  Inr \<lparr>metadata = md, labels = [],
                       last_snapshot = snapshot
                         \<lparr>snapshot_timestamp := TimestampToRDFDatetime (row_last_client_ts row),
                          startup_info := Some (si\<lparr>startup_timestamp :=
                                            TimestampToRDFDatetime (row_last_client_ts row)\<rparr>)\<rparr>,
                       last_startup_info = startup,
                       last_rrg_startup = row_last_rrg_startup_obj row\<rparr>))"

text \<open>\<open>if label_owner and label_name: c_full_info.labels.append(...)\<close>.\<close>

definition append_label :: "full_info_row \<Rightarrow> ClientFullInfo \<Rightarrow> ClientFullInfo" where
  "append_label row info =
     (if py_bool (row_label_owner row) \<and> py_bool (row_label_name row)
      then info\<lparr>labels := labels info
              @ [\<lparr>label_name = (case row_label_name row of Some s \<Rightarrow> s | None \<Rightarrow> []),
                   label_owner = (case row_label_owner row of Some s \<Rightarrow> s | None \<Rightarrow> [])\<rparr>]\<rparr>
      else info)"

text \<open>\<open>if c_full_info: yield db_utils.IntToClientID(prev_cid), c_full_info\<close>.\<close>

fun flush :: "ClientFullInfo option \<Rightarrow> nat option \<Rightarrow> (client_id \<times> ClientFullInfo) list" where
  "flush (Some info) (Some prev_cid) = [(IntToClientID prev_cid, info)]"
| "flush c p = []"

text \<open>
  \<open>_ResponseToClientsFullInfo\<close>: the loop over the rows with its two variables
  \<open>c_full_info\<close> and \<open>prev_cid\<close>, and the flush after the loop. The result is the list
  of the pairs the generator yields when it runs to its end, or the exception it raises
  before. A \<open>ClientFullInfo\<close> with a snapshot in it is a true object.
\<close>

fun ResponseToClientsFullInfo_loop ::
  "full_info_row list \<Rightarrow> ClientFullInfo option \<Rightarrow> nat option
     \<Rightarrow> error + (client_id \<times> ClientFullInfo) list" where
  "ResponseToClientsFullInfo_loop [] c_full_info prev_cid = Inr (flush c_full_info prev_cid)"
| "ResponseToClientsFullInfo_loop (row # rows) c_full_info prev_cid =
     (if Some (row_cid row) \<noteq> prev_cid
      then (case new_full_info row of
              Inl e \<Rightarrow> Inl e
            | Inr info \<Rightarrow>
               (case ResponseToClientsFullInfo_loop rows (Some (append_label row info))
                       (Some (row_cid row)) of
                  Inl e \<Rightarrow> Inl e
                | Inr yielded \<Rightarrow> Inr (flush c_full_info prev_cid @ yielded)))
      else ResponseToClientsFullInfo_loop rows (map_option (append_label row) c_full_info) prev_cid)"

definition ResponseToClientsFullInfo ::
  "full_info_row list \<Rightarrow> error + (client_id \<times> ClientFullInfo) list" where
  "ResponseToClientsFullInfo response = ResponseToClientsFullInfo_loop response None None"

text \<open>
  For the statement of the claim: a row whose label columns are both true, the label it
  stands for, the labels of a list of rows, a row that the join can give (a snapshot
  comes with the startup info stored with it), and the record of a client in a response:
  the record made from the client's first row, with the labels of all rows of the client.
\<close>

definition has_label :: "full_info_row \<Rightarrow> bool" where
  "has_label row = (py_bool (row_label_owner row) \<and> py_bool (row_label_name row))"

definition label_of_row :: "full_info_row \<Rightarrow> ClientLabel" where
  "label_of_row row =
     \<lparr>label_name = (case row_label_name row of Some s \<Rightarrow> s | None \<Rightarrow> []),
      label_owner = (case row_label_owner row of Some s \<Rightarrow> s | None \<Rightarrow> [])\<rparr>"

definition labels_of :: "full_info_row list \<Rightarrow> ClientLabel list" where
  "labels_of rows = map label_of_row (filter has_label rows)"

definition well_joined :: "full_info_row \<Rightarrow> bool" where
  "well_joined row = (row_client_obj row = None \<or> row_client_startup_obj row \<noteq> None)"

definition group_record :: "full_info_row list \<Rightarrow> nat \<Rightarrow> ClientFullInfo \<Rightarrow> bool" where
  "group_record rows n info =
     (case find (\<lambda>x. row_cid x = n) rows of
        None \<Rightarrow> False
      | Some r \<Rightarrow>
          (case new_full_info r of
             Inl e \<Rightarrow> False
           | Inr base \<Rightarrow>
               info = base\<lparr>labels := labels_of (filter (\<lambda>x. row_cid x = n) rows)\<rparr>))"

lemma IntToClientID_inj: "(IntToClientID a = IntToClientID b) = (a = b)"
  by (simp add: IntToClientID_def)

lemma new_full_info_well_joined:
  "well_joined row \<Longrightarrow> \<exists>base. new_full_info row = Inr base \<and> labels base = []"
  by (auto simp: well_joined_def new_full_info_def Let_def split: option.splits)

lemma append_label_labels:
  "append_label row info = info\<lparr>labels := labels info @ labels_of [row]\<rparr>"
  by (simp add: append_label_def labels_of_def has_label_def label_of_row_def)

lemma labels_of_append: "labels_of (xs @ ys) = labels_of xs @ labels_of ys"
  by (simp add: labels_of_def)

lemma labels_of_Cons: "labels_of (x # xs) = labels_of [x] @ labels_of xs"
  by (simp add: labels_of_def)

lemma remdups_adj_head: "remdups_adj (p # xs) = p # tl (remdups_adj (p # xs))"
proof -
  have "remdups_adj (p # xs) \<noteq> []" by simp
  moreover have "hd (remdups_adj (p # xs)) = p" by (simp add: hd_remdups_adj)
  ultimately show ?thesis by (metis list.collapse)
qed

lemma contiguous_head_fresh:
  assumes "distinct (remdups_adj (p # xs))"
  shows "p \<notin> set (tl (remdups_adj (p # xs)))"
proof -
  have "distinct (p # tl (remdups_adj (p # xs)))"
    by (subst remdups_adj_head [symmetric]) (rule assms)
  then show ?thesis by (simp only: distinct.simps) simp
qed

lemma contiguous_next:
  assumes "distinct (remdups_adj (p # q # xs))" and "q \<noteq> p"
  shows "distinct (remdups_adj (q # xs))" and "p \<notin> set (q # xs)"
proof -
  have e: "remdups_adj (p # q # xs) = p # remdups_adj (q # xs)"
    using assms(2) by simp
  show "distinct (remdups_adj (q # xs))" using assms(1) e by simp
  have "p \<notin> set (remdups_adj (q # xs))" using assms(1) e by simp
  then show "p \<notin> set (q # xs)" by (metis remdups_adj_set)
qed

lemma group_record_skip:
  assumes "row_cid r \<noteq> n"
  shows "group_record (r # rs) n info = group_record rs n info"
proof -
  have "find (\<lambda>x. row_cid x = n) (r # rs) = find (\<lambda>x. row_cid x = n) rs"
    and "filter (\<lambda>x. row_cid x = n) (r # rs) = filter (\<lambda>x. row_cid x = n) rs"
    using assms by simp_all
  then show ?thesis unfolding group_record_def by (simp only:)
qed

lemma group_record_first:
  assumes "new_full_info r = Inr base"
  shows "group_record (r # rs) (row_cid r)
           (base\<lparr>labels := labels_of (r # filter (\<lambda>x. row_cid x = row_cid r) rs)\<rparr>)"
  using assms by (simp add: group_record_def)

definition grouped :: "full_info_row list \<Rightarrow> (client_id \<times> ClientFullInfo) list \<Rightarrow> bool" where
  "grouped rows ys =
     (\<forall>ci \<in> set ys. \<exists>n. fst ci = IntToClientID n \<and> group_record rows n (snd ci))"

lemma grouped_skip:
  assumes "grouped rs ys" and "IntToClientID (row_cid r) \<notin> set (map fst ys)"
  shows "grouped (r # rs) ys"
  unfolding grouped_def
proof
  fix ci assume m: "ci \<in> set ys"
  then obtain n where n: "fst ci = IntToClientID n" "group_record rs n (snd ci)"
    using assms(1) by (auto simp: grouped_def)
  have "fst ci \<in> set (map fst ys)" using m by simp
  then have "row_cid r \<noteq> n" using assms(2) n(1) by auto
  then have "group_record (r # rs) n (snd ci)"
    using n(2) by (simp add: group_record_skip)
  then show "\<exists>n. fst ci = IntToClientID n \<and> group_record (r # rs) n (snd ci)"
    using n(1) by blast
qed

lemma fresh_keys:
  assumes "map fst ys = map IntToClientID (tl (remdups_adj (p # xs)))"
    and "distinct (remdups_adj (p # xs))"
  shows "IntToClientID p \<notin> set (map fst ys)"
  using contiguous_head_fresh [OF assms(2)] by (auto simp: assms(1) IntToClientID_inj)

text \<open>
  The state of the loop after the first row \<open>r\<close> of a client, with the rows \<open>rs\<close> to
  come: what the loop yields from there, given what it yields for a state of this kind
  on \<open>rs\<close>.
\<close>

lemma start_group:
  assumes run: "ResponseToClientsFullInfo_loop rs (Some (append_label r base)) (Some (row_cid r))
        = Inr ((IntToClientID (row_cid r),
                (append_label r base)\<lparr>labels := labels (append_label r base)
                   @ labels_of (filter (\<lambda>x. row_cid x = row_cid r) rs)\<rparr>) # ys)"
    and keys: "map fst ys = map IntToClientID (tl (remdups_adj (row_cid r # map row_cid rs)))"
    and rest: "grouped rs ys"
    and base: "new_full_info r = Inr base" "labels base = []"
    and contiguous: "distinct (remdups_adj (row_cid r # map row_cid rs))"
  shows "\<exists>zs. ResponseToClientsFullInfo_loop rs (Some (append_label r base)) (Some (row_cid r)) = Inr zs
        \<and> map fst zs = map IntToClientID (remdups_adj (row_cid r # map row_cid rs))
        \<and> grouped (r # rs) zs"
proof -
  let ?X = "(append_label r base)\<lparr>labels := labels (append_label r base)
                   @ labels_of (filter (\<lambda>x. row_cid x = row_cid r) rs)\<rparr>"
  let ?zs = "(IntToClientID (row_cid r), ?X) # ys"
  have x: "?X = base\<lparr>labels := labels_of (r # filter (\<lambda>x. row_cid x = row_cid r) rs)\<rparr>"
    using base(2) labels_of_Cons [of r "filter (\<lambda>x. row_cid x = row_cid r) rs"]
    by (simp add: append_label_labels)
  have first: "group_record (r # rs) (row_cid r) ?X"
    unfolding x using base(1) by (rule group_record_first)
  have others: "grouped (r # rs) ys"
    using rest fresh_keys [OF keys contiguous] by (rule grouped_skip)
  have g: "grouped (r # rs) ?zs"
    using first others by (auto simp: grouped_def)
  have e: "map IntToClientID (remdups_adj (row_cid r # map row_cid rs))
      = map IntToClientID (row_cid r # tl (remdups_adj (row_cid r # map row_cid rs)))"
    by (rule arg_cong [OF remdups_adj_head])
  have k: "map fst ?zs = map IntToClientID (remdups_adj (row_cid r # map row_cid rs))"
    unfolding e by (simp only: list.map fst_conv keys)
  show ?thesis using run k g by blast
qed

lemma loop_groups:
  assumes "\<forall>r \<in> set rows. well_joined r"
    and "distinct (remdups_adj (p # map row_cid rows))"
  shows "\<exists>ys. ResponseToClientsFullInfo_loop rows (Some i) (Some p)
            = Inr ((IntToClientID p,
                    i\<lparr>labels := labels i @ labels_of (filter (\<lambda>x. row_cid x = p) rows)\<rparr>) # ys)
         \<and> map fst ys = map IntToClientID (tl (remdups_adj (p # map row_cid rows)))
         \<and> grouped rows ys"
  using assms
proof (induction rows arbitrary: i p)
  case Nil
  show ?case by (simp add: labels_of_def grouped_def)
next
  case (Cons r rs)
  have wf: "\<forall>x \<in> set rs. well_joined x" and wr: "well_joined r"
    using Cons.prems(1) by simp_all
  show ?case
  proof (cases "row_cid r = p")
    case True
    have c: "distinct (remdups_adj (p # map row_cid rs))"
      using Cons.prems(2) True by simp
    obtain ys where run: "ResponseToClientsFullInfo_loop rs (Some (append_label r i)) (Some p)
            = Inr ((IntToClientID p,
                    (append_label r i)\<lparr>labels := labels (append_label r i)
                       @ labels_of (filter (\<lambda>x. row_cid x = p) rs)\<rparr>) # ys)"
      and keys: "map fst ys = map IntToClientID (tl (remdups_adj (p # map row_cid rs)))"
      and rest: "grouped rs ys"
      using Cons.IH [OF wf c, of "append_label r i"] by blast
    have x: "(append_label r i)\<lparr>labels := labels (append_label r i)
                       @ labels_of (filter (\<lambda>x. row_cid x = p) rs)\<rparr>
        = i\<lparr>labels := labels i @ labels_of (filter (\<lambda>x. row_cid x = p) (r # rs))\<rparr>"
      using True labels_of_Cons [of r "filter (\<lambda>x. row_cid x = p) rs"]
      by (simp add: append_label_labels)
    have step: "ResponseToClientsFullInfo_loop (r # rs) (Some i) (Some p)
        = ResponseToClientsFullInfo_loop rs (Some (append_label r i)) (Some p)"
      using True by simp
    have k: "map fst ys = map IntToClientID (tl (remdups_adj (p # map row_cid (r # rs))))"
      using keys True by simp
    have g: "grouped (r # rs) ys"
      using rest fresh_keys [OF keys c] True by (auto intro: grouped_skip)
    show ?thesis
      using step run x k g by auto
  next
    case False
    obtain base where base: "new_full_info r = Inr base" "labels base = []"
      using new_full_info_well_joined [OF wr] by blast
    have cn: "distinct (remdups_adj (row_cid r # map row_cid rs))"
      and fresh: "p \<notin> set (row_cid r # map row_cid rs)"
      using contiguous_next [of p "row_cid r" "map row_cid rs"] Cons.prems(2) False by simp_all
    obtain ys where run: "ResponseToClientsFullInfo_loop rs (Some (append_label r base)) (Some (row_cid r))
            = Inr ((IntToClientID (row_cid r),
                    (append_label r base)\<lparr>labels := labels (append_label r base)
                       @ labels_of (filter (\<lambda>x. row_cid x = row_cid r) rs)\<rparr>) # ys)"
      and keys: "map fst ys = map IntToClientID (tl (remdups_adj (row_cid r # map row_cid rs)))"
      and rest: "grouped rs ys"
      using Cons.IH [OF wf cn, of "append_label r base"] by blast
    obtain zs where zs: "ResponseToClientsFullInfo_loop rs (Some (append_label r base)) (Some (row_cid r))
          = Inr zs"
      and zk: "map fst zs = map IntToClientID (remdups_adj (row_cid r # map row_cid rs))"
      and zg: "grouped (r # rs) zs"
      using start_group [OF run keys rest base cn] by blast
    have none: "filter (\<lambda>x. row_cid x = p) (r # rs) = []"
      using fresh by (auto simp: filter_empty_conv)
    have step: "ResponseToClientsFullInfo_loop (r # rs) (Some i) (Some p)
        = Inr ((IntToClientID p, i) # zs)"
      using False base(1) zs by simp
    have "remdups_adj (p # map row_cid (r # rs)) = p # remdups_adj (row_cid r # map row_cid rs)"
      using False by simp
    then have k: "map fst zs = map IntToClientID (tl (remdups_adj (p # map row_cid (r # rs))))"
      using zk by simp
    have same: "i\<lparr>labels := labels i @ labels_of (filter (\<lambda>x. row_cid x = p) (r # rs))\<rparr> = i"
      unfolding none by (simp add: labels_of_def)
    show ?thesis
      unfolding same using step k zg by blast
  qed
qed

text \<open>
  \<open>MultiReadClientFullInfo\<close>. The response of its query: for every requested client
  (with \<open>last_ping\<close> not before \<open>min_last_ping\<close>, when given) the left joins with the
  snapshot and the startup info at \<open>last_snapshot_timestamp\<close>, the startup info at
  \<open>last_startup_timestamp\<close>, the newest RRG startup and the labels of the client; a
  left join without a partner gives \<open>NULL\<close>s. The rows come in the order of a
  nested-loop join over \<open>clients\<close> (the query has no \<open>ORDER BY\<close>). \<open>dict(...)\<close> keeps
  the last pair of a key.
\<close>

definition left_join :: "'a list \<Rightarrow> 'a option list" where
  "left_join xs = (if xs = [] then [None] else map Some xs)"

fun sql_ge :: "sql_value \<Rightarrow> int \<Rightarrow> bool" where
  "sql_ge (TIMESTAMP t) x = (x \<le> t)"
| "sql_ge v x = False"

definition MultiReadClientFullInfo_response ::
  "client_id list \<Rightarrow> int option \<Rightarrow> db \<Rightarrow> full_info_row list" where
  "MultiReadClientFullInfo_response client_ids min_last_ping d =
     [\<lparr>row_cid = client_id_of c, row_crt = c col_certificate, row_ip = c col_last_ip,
       row_ping = c col_last_ping, row_clk = c col_last_clock, row_foreman = c col_last_foreman,
       row_first = c col_first_seen, row_last_client_ts = c col_last_snapshot_timestamp,
       row_last_crash_ts = c col_last_crash_timestamp,
       row_last_startup_ts = c col_last_startup_timestamp,
       row_client_obj = h, row_client_startup_obj = s, row_last_startup_obj = s_last,
       row_last_rrg_startup_obj = rrg_s_last,
       row_label_owner = map_option fst l, row_label_name = map_option snd l\<rparr>.
        c \<leftarrow> clients d,
        c col_client_id \<in> set (map INTEGER (map ClientIDToInt client_ids))
          \<and> (case min_last_ping of None \<Rightarrow> True | Some t \<Rightarrow> sql_ge (c col_last_ping) t),
        h \<leftarrow> left_join [snapshot. (h_cid, h_ts, snapshot) \<leftarrow> client_snapshot_history d,
                           c col_client_id = INTEGER h_cid
                             \<and> c col_last_snapshot_timestamp = TIMESTAMP h_ts],
        s \<leftarrow> left_join [si. (s_cid, s_ts, si) \<leftarrow> client_startup_history d,
                           c col_client_id = INTEGER s_cid
                             \<and> c col_last_snapshot_timestamp = TIMESTAMP s_ts],
        s_last \<leftarrow> left_join [si. (s_cid, s_ts, si) \<leftarrow> client_startup_history d,
                           c col_client_id = INTEGER s_cid
                             \<and> c col_last_startup_timestamp = TIMESTAMP s_ts],
        rrg_s_last \<leftarrow> [map_option snd
                          (newest None (filter (\<lambda>(r_cid, ts, p). c col_client_id = INTEGER r_cid)
                                          (client_rrg_startup_history d)))],
        l \<leftarrow> left_join [(owner, label). (l_cid, h, owner, label) \<leftarrow> client_labels d,
                           c col_client_id = INTEGER l_cid]]"

definition dict :: "('k \<times> 'v) list \<Rightarrow> ('k \<rightharpoonup> 'v)" where
  "dict pairs = fold (\<lambda>(k, v) m. m(k \<mapsto> v)) pairs Map.empty"

definition MultiReadClientFullInfo ::
  "client_id list \<Rightarrow> int option \<Rightarrow> db \<Rightarrow> error + (client_id \<rightharpoonup> ClientFullInfo)" where
  "MultiReadClientFullInfo client_ids min_last_ping d =
     (if client_ids = [] then Inr Map.empty
      else case ResponseToClientsFullInfo
                  (MultiReadClientFullInfo_response client_ids min_last_ping d) of
             Inl e \<Rightarrow> Inl e
           | Inr yielded \<Rightarrow> Inr (dict yielded))"

lemma IntToClientID_injective: "inj IntToClientID"
  by (simp add: inj_def IntToClientID_def)

text \<open>
  Claim C2, as the code has it. For a response whose rows of one client are contiguous
  (and in which a snapshot comes with its startup info, as the join gives it), the
  generator \<open>_ResponseToClientsFullInfo\<close> runs to its end and yields one pair for each
  client id of the response, in the order of the clients' first rows: the client id with
  the record made from the client's first row, whose labels are the labels of the
  client's rows that have a non-empty owner and a non-empty name, in the order of the
  rows.
\<close>

theorem ResponseToClientsFullInfo_groups:
  assumes "distinct (remdups_adj (map row_cid response))"
    and "\<forall>r \<in> set response. well_joined r"
  shows "\<exists>yielded. ResponseToClientsFullInfo response = Inr yielded
       \<and> map fst yielded = map IntToClientID (remdups_adj (map row_cid response))
       \<and> distinct (map fst yielded)
       \<and> set (map fst yielded) = IntToClientID ` row_cid ` set response
       \<and> (\<forall>ci \<in> set yielded. \<exists>n. fst ci = IntToClientID n \<and> group_record response n (snd ci))"
proof -
  have main: "\<exists>yielded. ResponseToClientsFullInfo response = Inr yielded
       \<and> map fst yielded = map IntToClientID (remdups_adj (map row_cid response))
       \<and> grouped response yielded"
  proof (cases response)
    case Nil
    then show ?thesis by (simp add: ResponseToClientsFullInfo_def grouped_def)
  next
    case (Cons r rs)
    have wf: "\<forall>x \<in> set rs. well_joined x" and wr: "well_joined r"
      using assms(2) Cons by simp_all
    have c: "distinct (remdups_adj (row_cid r # map row_cid rs))"
      using assms(1) Cons by simp
    obtain base where base: "new_full_info r = Inr base" "labels base = []"
      using new_full_info_well_joined [OF wr] by blast
    obtain ys where run: "ResponseToClientsFullInfo_loop rs (Some (append_label r base)) (Some (row_cid r))
            = Inr ((IntToClientID (row_cid r),
                    (append_label r base)\<lparr>labels := labels (append_label r base)
                       @ labels_of (filter (\<lambda>x. row_cid x = row_cid r) rs)\<rparr>) # ys)"
      and keys: "map fst ys = map IntToClientID (tl (remdups_adj (row_cid r # map row_cid rs)))"
      and rest: "grouped rs ys"
      using loop_groups [OF wf c, of "append_label r base"] by blast
    obtain zs where zs: "ResponseToClientsFullInfo_loop rs (Some (append_label r base)) (Some (row_cid r))
          = Inr zs"
      and zk: "map fst zs = map IntToClientID (remdups_adj (row_cid r # map row_cid rs))"
      and zg: "grouped (r # rs) zs"
      using start_group [OF run keys rest base c] by blast
    have "ResponseToClientsFullInfo response = Inr zs"
      using Cons base(1) zs by (simp add: ResponseToClientsFullInfo_def)
    then show ?thesis using zk zg Cons by simp
  qed
  then obtain yielded where y: "ResponseToClientsFullInfo response = Inr yielded"
    and k: "map fst yielded = map IntToClientID (remdups_adj (map row_cid response))"
    and g: "grouped response yielded"
    by blast
  have d: "distinct (map fst yielded)"
    unfolding k using assms(1) IntToClientID_injective
    by (simp add: distinct_map inj_on_def inj_def)
  have "set (map fst yielded) = IntToClientID ` set (remdups_adj (map row_cid response))"
    unfolding k by simp
  then have s: "set (map fst yielded) = IntToClientID ` row_cid ` set response"
    by (simp only: remdups_adj_set set_map)
  show ?thesis using y k d s g unfolding grouped_def by blast
qed

definition example_row :: "nat \<Rightarrow> string option \<Rightarrow> string option \<Rightarrow> full_info_row" where
  "example_row cid owner name =
     \<lparr>row_cid = cid, row_crt = NULL, row_ip = NULL, row_ping = TIMESTAMP 10, row_clk = NULL,
      row_foreman = NULL, row_first = NULL, row_last_client_ts = NULL, row_last_crash_ts = NULL,
      row_last_startup_ts = NULL, row_client_obj = None, row_client_startup_obj = None,
      row_last_startup_obj = None, row_last_rrg_startup_obj = None,
      row_label_owner = owner, row_label_name = name\<rparr>"

definition yielded_labels ::
  "error + (client_id \<times> ClientFullInfo) list \<Rightarrow> error + (client_id \<times> ClientLabel list) list" where
  "yielded_labels res = map_sum id (map (\<lambda>ci. (fst ci, labels (snd ci)))) res"

lemmas response_eval =
  ResponseToClientsFullInfo_def new_full_info_def append_label_def example_row_def
  yielded_labels_def IntToClientID_def Let_def

theorem ResponseToClientsFullInfo_groups_witness:
  "distinct (remdups_adj (map row_cid
      [example_row 2 (Some ''GRR'') (Some ''a''), example_row 2 (Some ''GRR'') (Some ''b''),
       example_row 5 None None, example_row 7 (Some ''GRR'') (Some ''c'')]))
   \<and> yielded_labels (ResponseToClientsFullInfo
        [example_row 2 (Some ''GRR'') (Some ''a''), example_row 2 (Some ''GRR'') (Some ''b''),
         example_row 5 None None, example_row 7 (Some ''GRR'') (Some ''c'')])
       = Inr [(ClientId 2, [\<lparr>label_name = ''a'', label_owner = ''GRR''\<rparr>,
                            \<lparr>label_name = ''b'', label_owner = ''GRR''\<rparr>]),
              (ClientId 5, []),
              (ClientId 7, [\<lparr>label_name = ''c'', label_owner = ''GRR''\<rparr>])]
   \<and> map_sum id (map fst) (ResponseToClientsFullInfo
        [example_row 2 (Some ''GRR'') (Some ''a''), example_row 2 (Some ''GRR'') (Some ''b''),
         example_row 5 None None, example_row 7 (Some ''GRR'') (Some ''c'')])
       = Inr [ClientId 2, ClientId 5, ClientId 7]"
proof -
  let ?rows = "[example_row 2 (Some ''GRR'') (Some ''a''), example_row 2 (Some ''GRR'') (Some ''b''),
       example_row 5 None None, example_row 7 (Some ''GRR'') (Some ''c'')]"
  have c: "distinct (remdups_adj (map row_cid ?rows))"
    by (simp add: example_row_def)
  have w: "\<forall>r \<in> set ?rows. well_joined r"
    by (simp add: well_joined_def example_row_def)
  obtain yielded where y: "ResponseToClientsFullInfo ?rows = Inr yielded"
    and k: "map fst yielded = map IntToClientID (remdups_adj (map row_cid ?rows))"
    using ResponseToClientsFullInfo_groups [OF c w] by blast
  have "yielded_labels (ResponseToClientsFullInfo ?rows)
       = Inr [(ClientId 2, [\<lparr>label_name = ''a'', label_owner = ''GRR''\<rparr>,
                            \<lparr>label_name = ''b'', label_owner = ''GRR''\<rparr>]),
              (ClientId 5, []),
              (ClientId 7, [\<lparr>label_name = ''c'', label_owner = ''GRR''\<rparr>])]"
    by (simp add: response_eval)
  moreover have "map fst yielded = [ClientId 2, ClientId 5, ClientId 7]"
    using k by (simp add: example_row_def IntToClientID_def)
  then have "map_sum id (map fst) (ResponseToClientsFullInfo ?rows)
       = Inr [ClientId 2, ClientId 5, ClientId 7]"
    unfolding y by simp
  ultimately show ?thesis using c by blast
qed

text \<open>
  In the words of the spec, a label row of a client is a row of the response that the
  join made with a row of the label index.
\<close>

definition is_label_row :: "full_info_row \<Rightarrow> bool" where
  "is_label_row row = (row_label_owner row \<noteq> None \<and> row_label_name row \<noteq> None)"

theorem ResponseToClientsFullInfo_empty_label_counterexample:
  "client_labels (snd (MultiAddClientLabels id [ClientId 3] ''GRR'' [[]] db_with_history))
     = [(3, ''GRR'', ''GRR'', [])]
   \<and> map (\<lambda>r. (row_cid r, row_label_owner r, row_label_name r))
        (MultiReadClientFullInfo_response [ClientId 3] None
          (snd (MultiAddClientLabels id [ClientId 3] ''GRR'' [[]] db_with_history)))
       = [(3, Some ''GRR'', Some [])]
   \<and> is_label_row (example_row 3 (Some ''GRR'') (Some []))
   \<and> map label_of_row (filter is_label_row [example_row 3 (Some ''GRR'') (Some [])])
       = [\<lparr>label_name = [], label_owner = ''GRR''\<rparr>]
   \<and> yielded_labels (ResponseToClientsFullInfo [example_row 3 (Some ''GRR'') (Some [])])
       = Inr [(ClientId 3, [])]
   \<and> map_option labels
        (result_at (MultiReadClientFullInfo [ClientId 3] None
           (snd (MultiAddClientLabels id [ClientId 3] ''GRR'' [[]] db_with_history))) (ClientId 3))
       = Some []"
  by (simp add: response_eval is_label_row_def label_of_row_def MultiAddClientLabels_def
      MultiAddClientLabels_body_def WithTransaction_def client_known_def db_with_history_def
      db_empty_def new_client_row_def MultiReadClientFullInfo_def
      MultiReadClientFullInfo_response_def left_join_def client_id_of_def dict_def
      result_at_def example_snapshot_def example_startup_def)

subsection \<open>Counting active clients by label\<close>

text \<open>
  Modelled from the spec: \<open>fleet_utils.FleetStatsBuilder\<close>, which is not part of this
  file. It collects counts per (label, statistic value, day bucket) and per (statistic
  value, day bucket); \<open>IncrementLabel\<close> and \<open>IncrementTotal\<close> add \<open>delta\<close> to a cell, a
  cell never incremented is absent ("zero-count cells are omitted"), and \<open>Build\<close> returns
  what was collected. A cell is keyed by its group (the statistic value, with the label
  for a label count) and the day bucket.
\<close>

definition count_at :: "('k \<rightharpoonup> nat) \<Rightarrow> 'k \<Rightarrow> nat" where
  "count_at m k = (case m k of None \<Rightarrow> 0 | Some n \<Rightarrow> n)"

definition increment :: "('k \<rightharpoonup> nat) \<Rightarrow> 'k \<Rightarrow> nat \<Rightarrow> ('k \<rightharpoonup> nat)" where
  "increment m k delta = m(k \<mapsto> count_at m k + delta)"

record FleetStats =
  label_counts :: "((sql_value \<times> string) \<times> nat) \<rightharpoonup> nat"
  total_counts :: "(sql_value \<times> nat) \<rightharpoonup> nat"

text \<open>\<open>now - rdfvalue.Duration.From(day_bucket, rdfvalue.DAYS)\<close>, in microseconds.\<close>

definition timestamp_bucket :: "int \<Rightarrow> nat \<Rightarrow> int" where
  "timestamp_bucket now day_bucket = now - int day_bucket * 86400000000"

text \<open>
  The comparison \<open>c.last_ping > FROM_UNIXTIME(x)\<close> and its cast to \<open>UNSIGNED\<close>.
\<close>

fun sql_gt :: "sql_value \<Rightarrow> int \<Rightarrow> bool" where
  "sql_gt (TIMESTAMP t) x = (x < t)"
| "sql_gt v x = False"

definition ping_cast :: "client_row \<Rightarrow> int \<Rightarrow> nat" where
  "ping_cast c x = (if sql_gt (c col_last_ping) x then 1 else 0)"

text \<open>
  \<open>SELECT key, SUM(days_active_b), ... FROM j GROUP BY key\<close> for the rows \<open>j\<close> of the
  inner \<open>SELECT\<close>, each a key and the client row it was made from: one row per key,
  with the sums of the casts in the order of the buckets.
\<close>

definition group_sums ::
  "int list \<Rightarrow> ('g \<times> client_row) list \<Rightarrow> ('g \<times> nat list) list" where
  "group_sums timestamp_buckets j =
     map (\<lambda>g. (g, map (\<lambda>x. sum_list (map (\<lambda>(g', c). ping_cast c x)
                                    (filter (\<lambda>(g', c). g' = g) j)))
                   timestamp_buckets))
       (remdups (map fst j))"

text \<open>
  The loop over a response: \<open>for i, num_actives in enumerate(...)\<close>, skipping a
  count that is not positive, incrementing the cell of \<open>day_buckets[i]\<close> otherwise.
\<close>

definition count_row ::
  "nat list \<Rightarrow> 'g \<times> nat list \<Rightarrow> (('g \<times> nat) \<rightharpoonup> nat) \<Rightarrow> (('g \<times> nat) \<rightharpoonup> nat)" where
  "count_row day_buckets response_row m =
     fold (\<lambda>(i, num_actives) m.
             if num_actives \<le> 0 then m
             else increment m (fst response_row, day_buckets ! i) num_actives)
       (enumerate 0 (snd response_row)) m"

definition count_response ::
  "nat list \<Rightarrow> ('g \<times> nat list) list \<Rightarrow> (('g \<times> nat) \<rightharpoonup> nat) \<Rightarrow> (('g \<times> nat) \<rightharpoonup> nat)" where
  "count_response day_buckets response m = fold (count_row day_buckets) response m"

text \<open>
  \<open>_CountClientStatisticByLabel\<close>: \<open>statistic\<close> is a column of \<open>clients\<close>, \<open>now\<close> is
  \<open>RDFDatetime.Now()\<close>. The first query joins the clients that have a \<open>last_ping\<close> with
  their labels owned by \<open>GRR\<close>, the second takes the clients that have a \<open>last_ping\<close>.
\<close>

definition pinged_clients_with_labels :: "db \<Rightarrow> (client_row \<times> string) list" where
  "pinged_clients_with_labels d =
     [(c, label).
        c \<leftarrow> clients d,
        (l_cid, h, owner, label) \<leftarrow> client_labels d,
        c col_client_id = INTEGER l_cid \<and> c col_last_ping \<noteq> NULL \<and> owner = ''GRR'']"

definition pinged_clients :: "db \<Rightarrow> client_row list" where
  "pinged_clients d = filter (\<lambda>c. c col_last_ping \<noteq> NULL) (clients d)"

definition CountClientStatisticByLabel :: "column \<Rightarrow> nat set \<Rightarrow> int \<Rightarrow> db \<Rightarrow> FleetStats" where
  "CountClientStatisticByLabel statistic day_buckets now d =
     (let day_buckets = sorted_list_of_set day_buckets;
          timestamp_buckets = map (timestamp_bucket now) day_buckets;
          by_label = group_sums timestamp_buckets
            (map (\<lambda>(c, label). ((c statistic, label), c)) (pinged_clients_with_labels d));
          totals = group_sums timestamp_buckets
            (map (\<lambda>c. (c statistic, c)) (pinged_clients d))
      in \<lparr>label_counts = count_response day_buckets by_label Map.empty,
          total_counts = count_response day_buckets totals Map.empty\<rparr>)"

definition CountClientVersionStringsByLabel :: "nat set \<Rightarrow> int \<Rightarrow> db \<Rightarrow> FleetStats" where
  "CountClientVersionStringsByLabel = CountClientStatisticByLabel col_last_version_string"

definition CountClientPlatformsByLabel :: "nat set \<Rightarrow> int \<Rightarrow> db \<Rightarrow> FleetStats" where
  "CountClientPlatformsByLabel = CountClientStatisticByLabel col_last_platform"

definition CountClientPlatformReleasesByLabel :: "nat set \<Rightarrow> int \<Rightarrow> db \<Rightarrow> FleetStats" where
  "CountClientPlatformReleasesByLabel = CountClientStatisticByLabel col_last_platform_release"

text \<open>The cell of a group \<open>g\<close> and a bucket after the loop, for sums given by a function.\<close>

lemma count_at_increment:
  "count_at (increment m k n) k' = (if k' = k then count_at m k + n else count_at m k')"
  by (simp add: count_at_def increment_def)

lemma count_row_buckets:
  "count_row bs (g, map f bs) m
     = fold (\<lambda>b m. if f b = 0 then m else increment m (g, b) (f b)) bs m"
proof -
  have "fold (\<lambda>(i, n) m. if n \<le> 0 then m else increment m (g, (pre @ bs) ! i) n)
          (enumerate (length pre) (map f bs)) m
      = fold (\<lambda>b m. if f b = 0 then m else increment m (g, b) (f b)) bs m" for pre
  proof (induction bs arbitrary: pre m)
    case Nil
    show ?case by simp
  next
    case (Cons b bs)
    have e: "(pre @ [b]) @ bs = pre @ b # bs" by simp
    note ih = Cons.IH [of "pre @ [b]", unfolded e]
    show ?case using ih by (simp add: nth_append)
  qed
  from this [of "[]"] show ?thesis by (simp add: count_row_def split_def cong: if_cong)
qed

lemma bucket_cells:
  "distinct bs \<Longrightarrow>
   count_at (fold (\<lambda>b m. if f b = 0 then m else increment m (g, b) (f b)) bs m) (g', b')
     = count_at m (g', b') + (if g' = g \<and> b' \<in> set bs then f b' else 0)"
  by (induction bs arbitrary: m) (auto simp: count_at_increment)

lemma response_cells:
  assumes "distinct bs"
  shows "distinct gs \<Longrightarrow>
   count_at (count_response bs (map (\<lambda>g. (g, map (h g) bs)) gs) m) (g', b')
     = count_at m (g', b') + (if g' \<in> set gs \<and> b' \<in> set bs then h g' b' else 0)"
proof (induction gs arbitrary: m)
  case Nil
  show ?case by (simp add: count_response_def)
next
  case (Cons g gs)
  have d: "distinct gs" and n: "g \<notin> set gs" using Cons.prems by simp_all
  have "count_response bs (map (\<lambda>g. (g, map (h g) bs)) (g # gs)) m
      = count_response bs (map (\<lambda>g. (g, map (h g) bs)) gs) (count_row bs (g, map (h g) bs) m)"
    by (simp add: count_response_def)
  then show ?case
    using Cons.IH [OF d, of "count_row bs (g, map (h g) bs) m"] n
      bucket_cells [OF assms, of "h g" g m g' b']
    by (auto simp: count_row_buckets)
qed

definition no_zero :: "('k \<rightharpoonup> nat) \<Rightarrow> bool" where
  "no_zero m = (\<forall>k. m k \<noteq> Some 0)"

lemma no_zero_cell:
  assumes "no_zero m"
  shows "m k = (if count_at m k = 0 then None else Some (count_at m k))"
proof (cases "m k")
  case None
  then show ?thesis by (simp add: count_at_def)
next
  case (Some a)
  have "m k \<noteq> Some 0" using assms by (simp add: no_zero_def)
  then have "a \<noteq> 0" using Some by simp
  then show ?thesis using Some by (simp add: count_at_def)
qed

lemma no_zero_count_row: "no_zero m \<Longrightarrow> no_zero (count_row bs (g, map f bs) m)"
  unfolding count_row_buckets
  by (induction bs arbitrary: m) (auto simp: no_zero_def increment_def)

lemma no_zero_count_response:
  "no_zero m \<Longrightarrow> no_zero (count_response bs (map (\<lambda>g. (g, map (h g) bs)) gs) m)"
  unfolding count_response_def
  by (induction gs arbitrary: m) (simp_all add: no_zero_count_row)

lemma sum_list_casts:
  "sum_list (map (\<lambda>(g', c). ping_cast c x) rows)
     = length (filter (\<lambda>(g', c). sql_gt (c col_last_ping) x) rows)"
  by (induction rows) (auto simp: ping_cast_def)

text \<open>
  The cell of a group and a day bucket after counting the grouped response of an inner
  \<open>SELECT\<close> with rows \<open>j\<close>: the number of rows of the group whose client has a
  \<open>last_ping\<close> after the bucket's cutoff, and no cell when there is none.
\<close>

lemma counted_cell:
  assumes "distinct bs" and "b \<in> set bs"
  shows "count_response bs (group_sums (map (timestamp_bucket now) bs) j) Map.empty (g, b)
     = (let n = length (filter (\<lambda>(g', c). g' = g \<and> sql_gt (c col_last_ping) (timestamp_bucket now b)) j)
        in if n = 0 then None else Some n)"
proof -
  let ?h = "\<lambda>g b. sum_list (map (\<lambda>(g', c). ping_cast c (timestamp_bucket now b))
                        (filter (\<lambda>(g', c). g' = g) j))"
  let ?m = "count_response bs (map (\<lambda>g. (g, map (?h g) bs)) (remdups (map fst j))) Map.empty"
  have shape: "group_sums (map (timestamp_bucket now) bs) j
      = map (\<lambda>g. (g, map (?h g) bs)) (remdups (map fst j))"
    by (simp add: group_sums_def comp_def)
  have hcount: "?h g b = length (filter (\<lambda>(g', c). g' = g
        \<and> sql_gt (c col_last_ping) (timestamp_bucket now b)) j)"
  proof -
    have "filter (\<lambda>(g', c). sql_gt (c col_last_ping) (timestamp_bucket now b))
            (filter (\<lambda>(g', c). g' = g) j)
        = filter (\<lambda>(g', c). g' = g \<and> sql_gt (c col_last_ping) (timestamp_bucket now b)) j"
      by (induction j) auto
    then show ?thesis by (simp add: sum_list_casts)
  qed
  have absent: "?h g b = 0" if "g \<notin> set (remdups (map fst j))"
  proof -
    have "filter (\<lambda>(g', c). g' = g) j = []"
      using that by (force simp: filter_empty_conv)
    then show ?thesis by simp
  qed
  have "count_at ?m (g, b)
      = count_at Map.empty (g, b) + (if g \<in> set (remdups (map fst j)) \<and> b \<in> set bs then ?h g b else 0)"
    using response_cells [OF assms(1), of "remdups (map fst j)" ?h Map.empty g b] by simp
  then have c: "count_at ?m (g, b) = ?h g b"
    using assms(2) absent by (auto simp: count_at_def)
  have "no_zero ?m"
    by (rule no_zero_count_response) (simp add: no_zero_def)
  then have "?m (g, b) = (if count_at ?m (g, b) = 0 then None else Some (count_at ?m (g, b)))"
    by (rule no_zero_cell)
  then show ?thesis
    unfolding shape c hcount by (simp add: Let_def)
qed

lemma sql_gt_not_null: "sql_gt v x \<Longrightarrow> v \<noteq> NULL"
  by (cases v) simp_all

lemma total_rows_count:
  "length (filter (\<lambda>(g', c). g' = v \<and> sql_gt (c col_last_ping) x)
             (map (\<lambda>c. (c statistic, c)) (pinged_clients d)))
     = length (filter (\<lambda>c. c statistic = v \<and> sql_gt (c col_last_ping) x) (clients d))"
proof -
  have "length (filter (\<lambda>(g', c). g' = v \<and> sql_gt (c col_last_ping) x)
             (map (\<lambda>c. (c statistic, c)) (filter (\<lambda>c. c col_last_ping \<noteq> NULL) cs)))
     = length (filter (\<lambda>c. c statistic = v \<and> sql_gt (c col_last_ping) x) cs)" for cs
    by (induction cs) (auto dest: sql_gt_not_null)
  then show ?thesis by (simp add: pinged_clients_def)
qed

lemma label_rows_count:
  "length (filter (\<lambda>(g', c). g' = (v, l) \<and> sql_gt (c col_last_ping) x)
             (map (\<lambda>(c, label). ((c statistic, label), c)) rows))
     = length (filter (\<lambda>(c, label). c statistic = v \<and> label = l \<and> sql_gt (c col_last_ping) x) rows)"
  by (induction rows) auto

lemma CountClientStatisticByLabel_cells:
  assumes "finite day_buckets" and "N \<in> day_buckets"
  shows "total_counts (CountClientStatisticByLabel statistic day_buckets now d) (v, N)
           = (let n = length (filter (\<lambda>c. c statistic = v
                          \<and> sql_gt (c col_last_ping) (timestamp_bucket now N)) (clients d))
              in if n = 0 then None else Some n)
       \<and> label_counts (CountClientStatisticByLabel statistic day_buckets now d) ((v, l), N)
           = (let n = length (filter (\<lambda>(c, label). c statistic = v \<and> label = l
                          \<and> sql_gt (c col_last_ping) (timestamp_bucket now N))
                        (pinged_clients_with_labels d))
              in if n = 0 then None else Some n)"
proof -
  let ?bs = "sorted_list_of_set day_buckets"
  have d: "distinct ?bs" by simp
  have m: "N \<in> set ?bs" using assms by simp
  note a = counted_cell [OF d m, of now "map (\<lambda>c. (c statistic, c)) (pinged_clients d)" v,
      unfolded total_rows_count]
  note b = counted_cell [OF d m, of now
      "map (\<lambda>(c, label). ((c statistic, label), c)) (pinged_clients_with_labels d)" "(v, l)",
      unfolded label_rows_count]
  have tc: "total_counts (CountClientStatisticByLabel statistic day_buckets now d)
      = count_response ?bs (group_sums (map (timestamp_bucket now) ?bs)
          (map (\<lambda>c. (c statistic, c)) (pinged_clients d))) Map.empty"
    by (simp add: CountClientStatisticByLabel_def Let_def)
  have lc: "label_counts (CountClientStatisticByLabel statistic day_buckets now d)
      = count_response ?bs (group_sums (map (timestamp_bucket now) ?bs)
          (map (\<lambda>(c, label). ((c statistic, label), c)) (pinged_clients_with_labels d)))
          Map.empty"
    by (simp add: CountClientStatisticByLabel_def Let_def)
  show ?thesis unfolding tc lc by (intro conjI) (rule a, rule b)
qed

text \<open>
  Claim C3, as the code has it. For each of the three counting functions and every day
  bucket \<open>N\<close> passed to it, the fleet-wide cell of a statistic value and \<open>N\<close> holds the
  number of clients with that value whose \<open>last_ping\<close> is after the cutoff \<open>now - N\<close>
  days, strictly (the query compares with \<open>>\<close>); the cell of a label, a statistic value
  and \<open>N\<close> holds the number of such clients among those with that label owned by
  \<open>GRR\<close>. A cell whose count is zero is absent.
\<close>

theorem CountClientStatisticByLabel_active:
  assumes "finite day_buckets" and "N \<in> day_buckets"
    and "(count, statistic) \<in>
           {(CountClientVersionStringsByLabel, col_last_version_string),
            (CountClientPlatformsByLabel, col_last_platform),
            (CountClientPlatformReleasesByLabel, col_last_platform_release)}"
  shows "total_counts (count day_buckets now d) (v, N)
           = (let n = length (filter (\<lambda>c. c statistic = v
                          \<and> sql_gt (c col_last_ping) (timestamp_bucket now N)) (clients d))
              in if n = 0 then None else Some n)
       \<and> label_counts (count day_buckets now d) ((v, l), N)
           = (let n = length (filter (\<lambda>(c, label). c statistic = v \<and> label = l
                          \<and> sql_gt (c col_last_ping) (timestamp_bucket now N))
                        (pinged_clients_with_labels d))
              in if n = 0 then None else Some n)"
proof -
  have "count = CountClientStatisticByLabel statistic"
    using assms(3)
    by (auto simp: CountClientVersionStringsByLabel_def CountClientPlatformsByLabel_def
        CountClientPlatformReleasesByLabel_def)
  then show ?thesis
    using CountClientStatisticByLabel_cells [OF assms(1,2)] by simp
qed

definition pinging_client :: "nat \<Rightarrow> int \<Rightarrow> client_row" where
  "pinging_client cid t =
     (new_client_row cid)(col_last_ping := TIMESTAMP t, col_last_platform := TEXT ''Linux'')"

text \<open>
  Ten days after the epoch: a client seen half a day ago, one seen exactly one day ago
  and one seen three days ago; the first and the third have the label \<open>lab\<close>.
\<close>

definition db_fleet :: db where
  "db_fleet = db_empty
     \<lparr>clients := [pinging_client 2 820800000000, pinging_client 3 777600000000,
                  pinging_client 4 604800000000],
      client_labels := [(2, ''h'', ''GRR'', ''lab''), (4, ''h'', ''GRR'', ''lab''),
                        (3, ''h'', ''admin'', ''lab'')]\<rparr>"

lemmas fleet_eval =
  db_fleet_def db_empty_def pinging_client_def new_client_row_def timestamp_bucket_def
  pinged_clients_with_labels_def Let_def

theorem CountClientStatisticByLabel_active_witness:
  "total_counts (CountClientPlatformsByLabel {1, 7} 864000000000 db_fleet) (TEXT ''Linux'', 1) = Some 1
   \<and> total_counts (CountClientPlatformsByLabel {1, 7} 864000000000 db_fleet) (TEXT ''Linux'', 7) = Some 3
   \<and> label_counts (CountClientPlatformsByLabel {1, 7} 864000000000 db_fleet)
        ((TEXT ''Linux'', ''lab''), 1) = Some 1
   \<and> label_counts (CountClientPlatformsByLabel {1, 7} 864000000000 db_fleet)
        ((TEXT ''Linux'', ''lab''), 7) = Some 2
   \<and> total_counts (CountClientPlatformsByLabel {1, 7} 864000000000 db_fleet) (TEXT ''Windows'', 7) = None"
proof -
  have f: "finite {1, 7 :: nat}" by simp
  have m: "(1::nat) \<in> {1, 7}" "(7::nat) \<in> {1, 7}" by simp_all
  have p: "(CountClientPlatformsByLabel, col_last_platform) \<in>
           {(CountClientVersionStringsByLabel, col_last_version_string),
            (CountClientPlatformsByLabel, col_last_platform),
            (CountClientPlatformReleasesByLabel, col_last_platform_release)}" by simp
  note one = CountClientStatisticByLabel_active [OF f m(1) p, of 864000000000 db_fleet]
  note seven = CountClientStatisticByLabel_active [OF f m(2) p, of 864000000000 db_fleet]
  have "total_counts (CountClientPlatformsByLabel {1, 7} 864000000000 db_fleet) (TEXT ''Linux'', 1) = Some 1"
    using one [of "TEXT ''Linux''" "''lab''"] by (simp add: fleet_eval)
  moreover have "total_counts (CountClientPlatformsByLabel {1, 7} 864000000000 db_fleet) (TEXT ''Linux'', 7) = Some 3"
    using seven [of "TEXT ''Linux''" "''lab''"] by (simp add: fleet_eval)
  moreover have "label_counts (CountClientPlatformsByLabel {1, 7} 864000000000 db_fleet)
        ((TEXT ''Linux'', ''lab''), 1) = Some 1"
    using one [of "TEXT ''Linux''" "''lab''"] by (simp add: fleet_eval)
  moreover have "label_counts (CountClientPlatformsByLabel {1, 7} 864000000000 db_fleet)
        ((TEXT ''Linux'', ''lab''), 7) = Some 2"
    using seven [of "TEXT ''Linux''" "''lab''"] by (simp add: fleet_eval)
  moreover have "total_counts (CountClientPlatformsByLabel {1, 7} 864000000000 db_fleet) (TEXT ''Windows'', 7) = None"
    using seven [of "TEXT ''Windows''" "''lab''"] by (simp add: fleet_eval)
  ultimately show ?thesis by blast
qed

definition db_boundary :: db where
  "db_boundary = db_empty
     \<lparr>clients := [pinging_client 3 777600000000],
      client_labels := [(3, ''h'', ''GRR'', ''lab'')]\<rparr>"

theorem CountClientStatisticByLabel_cutoff_counterexample:
  "map (\<lambda>c. c col_last_ping) (clients db_boundary) = [TIMESTAMP (timestamp_bucket 864000000000 1)]
   \<and> sql_ge (TIMESTAMP 777600000000) (timestamp_bucket 864000000000 1)
   \<and> total_counts (CountClientPlatformsByLabel {1, 7} 864000000000 db_boundary) (TEXT ''Linux'', 1) = None
   \<and> label_counts (CountClientPlatformsByLabel {1, 7} 864000000000 db_boundary)
        ((TEXT ''Linux'', ''lab''), 1) = None
   \<and> total_counts (CountClientPlatformsByLabel {1, 7} 864000000000 db_boundary) (TEXT ''Linux'', 7) = Some 1"
proof -
  have f: "finite {1, 7 :: nat}" by simp
  have m: "(1::nat) \<in> {1, 7}" "(7::nat) \<in> {1, 7}" by simp_all
  note one = CountClientStatisticByLabel_cells [OF f m(1), of col_last_platform 864000000000
      db_boundary "TEXT ''Linux''" "''lab''"]
  note seven = CountClientStatisticByLabel_cells [OF f m(2), of col_last_platform 864000000000
      db_boundary "TEXT ''Linux''" "''lab''"]
  show ?thesis
    using one seven
    by (simp add: CountClientPlatformsByLabel_def db_boundary_def db_empty_def
        pinging_client_def new_client_row_def timestamp_bucket_def
        pinged_clients_with_labels_def Let_def)
qed

end
